theory Spec2Isabelle
  imports Complex_Main "HOL-Library.AList"
begin

section \<open>JavaScript values shared by the six packages\<close>

text \<open>
  The packages are TypeScript. Three features of the language decide what the code does
  and are written out here: truthiness (the operators \<open>!x\<close>, \<open>a || b\<close> and
  \<open>a && b\<close> test it, not presence), the difference between \<open>||\<close> and
  \<open>??\<close>, and exceptions, which are values of a sum type (\<open>Inl\<close> is a throw or
  a rejected promise). A string is a list of 8-bit code units; code units above 255 are
  outside the model.
\<close>

datatype thrown =
    Error string        \<comment> \<open>\<open>new Error(message)\<close>\<close>
  | TypeError string    \<comment> \<open>raised by the runtime, e.g. reading a property of \<open>null\<close>\<close>
  | Rejection string    \<comment> \<open>a failure reported by an external library\<close>

datatype log_level = LInfo | LError | LWarn | LDebug

text \<open>A log entry is the level and the message; the metadata bag is not modelled.\<close>

type_synonym log_entry = "log_level \<times> string"

text \<open>
  The optional \<open>logger\<close> of a configuration: a logger that the caller hands in, or the
  package's console fallback. An object is truthy, so \<open>config.logger || consoleLogger\<close>
  is the caller's logger whenever there is one.
\<close>

datatype logger_ref = consoleLogger | injected string

definition or_console :: "logger_ref option \<Rightarrow> logger_ref" where
  "or_console l = (case l of None \<Rightarrow> consoleLogger | Some given \<Rightarrow> given)"

lemma or_console_simps [simp]: "or_console None = consoleLogger" "or_console (Some x) = x"
  by (simp_all add: or_console_def)

text \<open>\<open>process.env\<close>: a variable is a string or \<open>undefined\<close>.\<close>

type_synonym env = "string \<Rightarrow> string option"

text \<open>An optional string property: \<open>None\<close> is \<open>undefined\<close>.\<close>

definition truthy_str :: "string option \<Rightarrow> bool" where
  "truthy_str x = (case x of None \<Rightarrow> False | Some s \<Rightarrow> s \<noteq> [])"

text \<open>\<open>a || b\<close> on optional strings: \<open>a\<close> when \<open>a\<close> is truthy, else \<open>b\<close>.\<close>

definition or_str :: "string option \<Rightarrow> string option \<Rightarrow> string option" where
  "or_str a b = (if truthy_str a then a else b)"

text \<open>\<open>a || 'literal'\<close>: the right operand is a string, so is the result.\<close>

definition or_lit :: "string option \<Rightarrow> string \<Rightarrow> string" where
  "or_lit a d = (case a of None \<Rightarrow> d | Some s \<Rightarrow> if s \<noteq> [] then s else d)"

text \<open>\<open>a ?? d\<close>: \<open>d\<close> only when \<open>a\<close> is \<open>undefined\<close> (or \<open>null\<close>).\<close>

definition nullish :: "'a option \<Rightarrow> 'a \<Rightarrow> 'a" where
  "nullish a d = (case a of None \<Rightarrow> d | Some v \<Rightarrow> v)"

subsection \<open>Character classes\<close>

text \<open>
  White space is the set that \<open>\s\<close> in a regular expression, \<open>String.prototype.trim\<close>,
  \<open>parseInt\<close> and \<open>parseFloat\<close> all use: tab, line feed, vertical tab, form feed,
  carriage return, space and the no-break space.
\<close>

definition is_space :: "char \<Rightarrow> bool" where
  "is_space c = (c \<in> set [CHR 0x09, CHR 0x0A, CHR 0x0B, CHR 0x0C, CHR 0x0D, CHR '' '', CHR 0xA0])"

text \<open>\<open>\d\<close>, that is \<open>[0-9]\<close>.\<close>

definition is_digit :: "char \<Rightarrow> bool" where
  "is_digit c = (c \<in> set ''0123456789'')"

definition digit_val :: "char \<Rightarrow> nat" where
  "digit_val c = of_char c - 48"

definition digits_val :: "string \<Rightarrow> nat" where
  "digits_val ds = foldl (\<lambda>n c. 10 * n + digit_val c) 0 ds"

subsection \<open>Numbers\<close>

text \<open>
  A JavaScript number is a double. \<open>Number q\<close> carries the exact decimal value \<open>q\<close> that
  a literal denotes; the rounding of \<open>q\<close> to the nearest double (which may give an
  infinity or zero) is not modelled. Whether a result is \<open>NaN\<close> is decided by the
  syntax of the text alone, and that is modelled in full.
\<close>

datatype jsnum =
    NaN
  | Number rat
  | Infinity bool    \<comment> \<open>\<open>True\<close> for \<open>-Infinity\<close>\<close>

definition isNaN :: "jsnum \<Rightarrow> bool" where
  "isNaN n = (n = NaN)"

text \<open>A leading sign: the factor it stands for and the rest of the text.\<close>

fun read_sign :: "string \<Rightarrow> int \<times> string" where
  "read_sign (c # cs) =
     (if c = CHR ''-'' then (- 1, cs) else if c = CHR ''+'' then (1, cs) else (1, c # cs))"
| "read_sign [] = (1, [])"

text \<open>
  \<open>parseInt(s, 10)\<close>: leading white space is skipped, a sign is read, and the longest
  run of decimal digits that follows is the value; no digit gives \<open>NaN\<close>.
\<close>

definition parseInt10 :: "string \<Rightarrow> jsnum" where
  "parseInt10 s =
     (let (sign, r) = read_sign (dropWhile is_space s);
          ds = takeWhile is_digit r
      in if ds = [] then NaN else Number (of_int (sign * int (digits_val ds))))"

text \<open>\<open>m * 10^k\<close> for an integer exponent \<open>k\<close> of either sign.\<close>

definition scale10 :: "int \<Rightarrow> int \<Rightarrow> rat" where
  "scale10 m k = (if 0 \<le> k then of_int m * 10 ^ nat k else of_int m / 10 ^ nat (- k))"

text \<open>
  The exponent part \<open>[eE][+-]?[0-9]+\<close> at the head of a text, when there is one:
  \<open>parseFloat\<close> takes the longest prefix that is a decimal literal, so an \<open>e\<close> that no
  digit follows is left out and the exponent is 0.
\<close>

fun read_exponent :: "string \<Rightarrow> int" where
  "read_exponent (c # cs) =
     (if c = CHR ''e'' \<or> c = CHR ''E'' then
        (let (sign, r) = read_sign cs; ds = takeWhile is_digit r
         in if ds = [] then 0 else sign * int (digits_val ds))
      else 0)"
| "read_exponent [] = 0"

text \<open>
  \<open>parseFloat(s)\<close>: white space, a sign, then \<open>Infinity\<close> or the longest prefix of the
  forms \<open>digits [. [digits]] [exponent]\<close> and \<open>. digits [exponent]\<close>. Whatever follows
  that prefix is ignored; no such prefix gives \<open>NaN\<close>.
\<close>

definition parseFloat :: "string \<Rightarrow> jsnum" where
  "parseFloat s =
     (let (sign, r) = read_sign (dropWhile is_space s) in
      if take 8 r = ''Infinity'' then Infinity (sign < 0)
      else
        let ip = takeWhile is_digit r;
            r1 = dropWhile is_digit r;
            dot = (r1 \<noteq> [] \<and> hd r1 = CHR ''.'');
            fp = (if dot then takeWhile is_digit (tl r1) else []);
            r2 = (if dot then dropWhile is_digit (tl r1) else r1)
        in if ip = [] \<and> fp = [] then NaN
           else Number (scale10 (sign * int (digits_val (ip @ fp)))
                          (read_exponent r2 - int (length fp))))"

section \<open>redis-cache: the no-op cache\<close>

text \<open>
  \<open>noop-cache.ts\<close>. The class has no field, so its state is the unit value; each
  method is a function from the state to the result and the state. The results are
  promises (\<open>isConnected\<close> apart): \<open>Inr\<close> is a resolved promise or a plain return.
\<close>

datatype 'v cache_op =
    Connect
  | Disconnect
  | Get string
  | Set string 'v "int option"
  | Delete string
  | Exists string
  | IsConnected
  | HealthCheck

datatype 'v cache_result =
    RVoid                     \<comment> \<open>\<open>Promise<void>\<close>\<close>
  | RValue "'v option"        \<comment> \<open>\<open>T | null\<close>, \<open>None\<close> is \<open>null\<close>\<close>
  | RBool bool

type_synonym NoOpCache = unit

fun noop_exec :: "NoOpCache \<Rightarrow> 'v cache_op \<Rightarrow> (thrown + 'v cache_result) \<times> NoOpCache" where
  "noop_exec c Connect = (Inr RVoid, c)"
| "noop_exec c Disconnect = (Inr RVoid, c)"
| "noop_exec c (Get _) = (Inr (RValue None), c)"
| "noop_exec c (Set _ _ _) = (Inr RVoid, c)"
| "noop_exec c (Delete _) = (Inr RVoid, c)"
| "noop_exec c (Exists _) = (Inr (RBool False), c)"
| "noop_exec c IsConnected = (Inr (RBool False), c)"
| "noop_exec c HealthCheck = (Inr (RBool False), c)"

text \<open>A sequence of calls on one instance: the results in order, and the final state.\<close>

fun noop_run :: "NoOpCache \<Rightarrow> 'v cache_op list \<Rightarrow> (thrown + 'v cache_result) list \<times> NoOpCache" where
  "noop_run c [] = ([], c)"
| "noop_run c (x # xs) =
     (let (r, c') = noop_exec c x; (rs, c'') = noop_run c' xs in (r # rs, c''))"

text \<open>What the contract promises for one call, whatever came before it.\<close>

fun noop_expected :: "'v cache_op \<Rightarrow> thrown + 'v cache_result" where
  "noop_expected (Get _) = Inr (RValue None)"
| "noop_expected (Exists _) = Inr (RBool False)"
| "noop_expected IsConnected = Inr (RBool False)"
| "noop_expected HealthCheck = Inr (RBool False)"
| "noop_expected _ = Inr RVoid"

lemma noop_exec_expected: "fst (noop_exec c x) = noop_expected x"
  by (cases x) simp_all

lemma noop_run_results: "fst (noop_run c xs) = map noop_expected xs"
proof (induction xs arbitrary: c)
  case Nil
  show ?case by simp
next
  case (Cons x xs)
  have "fst (noop_run c (x # xs)) = fst (noop_exec c x) # fst (noop_run (snd (noop_exec c x)) xs)"
    by (simp add: case_prod_unfold Let_def)
  then show ?case
    using Cons.IH noop_exec_expected by simp
qed

text \<open>
  C9. After any sequence of earlier calls \<open>pre\<close> on the instance (a \<open>set\<close> of the
  same key among them), no call throws, \<open>get\<close> resolves to \<open>null\<close>, and
  \<open>exists\<close>, \<open>isConnected\<close> and \<open>healthCheck\<close> give \<open>false\<close>.
\<close>

theorem noop_cache_always_misses:
  fixes pre :: "'v cache_op list" and k :: string
  shows "fst (noop_run c (pre @ [x])) ! length pre \<noteq> Inl e
       \<and> fst (noop_run c (pre @ [Get k])) ! length pre = Inr (RValue None)
       \<and> fst (noop_run c (pre @ [Exists k])) ! length pre = Inr (RBool False)
       \<and> fst (noop_run c (pre @ [IsConnected])) ! length pre = Inr (RBool False)
       \<and> fst (noop_run c (pre @ [HealthCheck])) ! length pre = Inr (RBool False)
       \<and> fst (noop_run c (Set k v ttl # pre @ [Get k])) ! Suc (length pre) = Inr (RValue None)"
proof -
  have nth: "\<And>y. fst (noop_run c (pre @ [y])) ! length pre = noop_expected y"
    unfolding noop_run_results by (simp add: nth_append)
  have "noop_expected x \<noteq> Inl e"
    by (cases x) simp_all
  moreover have "fst (noop_run c (Set k v ttl # pre @ [Get k])) ! Suc (length pre) = Inr (RValue None)"
    unfolding noop_run_results by (simp add: nth_append)
  ultimately show ?thesis
    using nth by simp
qed

section \<open>redis-cache: the cache and its factory\<close>

text \<open>
  \<open>cache.ts\<close> (its text is the copy in \<open>NEXT-STEPS.md\<close>) and the factory
  \<open>createRedisCache\<close> of the package's \<open>index.ts\<close>. A configuration object is a
  record of optional properties: TypeScript's types are erased, and the tests do build
  \<open>{} as RedisConfig\<close>.
\<close>

record RedisConfig =
  serviceName :: "string option"
  redisUrl :: "string option"
  defaultTTL :: "int option"
  keyPrefix :: "string option"
  logger :: "logger_ref option"

text \<open>The fields of a constructed \<open>RedisCache\<close>: its resolved configuration and state.\<close>

record RedisCache =
  serviceName :: string
  redisUrl :: string
  defaultTTL :: int
  keyPrefix :: string
  logger :: logger_ref
  connected :: bool

definition RedisCache_new :: "RedisConfig \<Rightarrow> env \<Rightarrow> thrown + RedisCache" where
  "RedisCache_new cfg penv =
     (if \<not> truthy_str (RedisConfig.serviceName cfg) then
        Inl (Error ''RedisConfig.serviceName is required'')
      else Inr \<lparr>
        RedisCache.serviceName = the (RedisConfig.serviceName cfg),
        redisUrl = or_lit (or_str (RedisConfig.redisUrl cfg) (penv ''REDIS_URL''))
                     ''redis://localhost:6379'',
        defaultTTL = nullish (RedisConfig.defaultTTL cfg) 3600,
        keyPrefix = nullish (RedisConfig.keyPrefix cfg) ''rr:'',
        logger = or_console (RedisConfig.logger cfg),
        connected = False \<rparr>)"

datatype CacheClient = NoOp NoOpCache | Redis RedisCache

text \<open>A template literal prints \<open>undefined\<close> for a missing value.\<close>

definition template :: "string option \<Rightarrow> string" where
  "template x = (case x of None \<Rightarrow> ''undefined'' | Some s \<Rightarrow> s)"

text \<open>The factory returns the console lines it printed and the client (or throws).\<close>

definition createRedisCache :: "RedisConfig \<Rightarrow> env \<Rightarrow> log_entry list \<times> (thrown + CacheClient)" where
  "createRedisCache cfg penv =
     (let cacheEnabled = (penv ''REDIS_CACHE_ENABLED'' = Some ''true'');
          redisUrl = or_str (RedisConfig.redisUrl cfg) (penv ''REDIS_URL'')
      in if \<not> cacheEnabled then
           ([(LInfo, ''['' @ template (RedisConfig.serviceName cfg)
                       @ ''] Redis caching disabled (REDIS_CACHE_ENABLED=false)'')],
            Inr (NoOp ()))
         else if \<not> truthy_str redisUrl then
           ([(LWarn, ''['' @ template (RedisConfig.serviceName cfg)
                       @ ''] REDIS_URL not set - caching disabled'')],
            Inr (NoOp ()))
         else
           ([], map_sum id Redis (RedisCache_new (cfg\<lparr>RedisConfig.redisUrl := redisUrl\<rparr>) penv)))"

text \<open>
  The claim's words: a Redis URL is resolvable when the configuration or the variable
  \<open>REDIS_URL\<close> gives a non-empty one.
\<close>

definition redis_url_resolvable :: "RedisConfig \<Rightarrow> env \<Rightarrow> bool" where
  "redis_url_resolvable cfg penv =
     ((case RedisConfig.redisUrl cfg of Some u \<Rightarrow> u \<noteq> [] | None \<Rightarrow> False)
      \<or> (case penv ''REDIS_URL'' of Some u \<Rightarrow> u \<noteq> [] | None \<Rightarrow> False))"

lemma truthy_or_str: "truthy_str (or_str a b) = (truthy_str a \<or> truthy_str b)"
  by (simp add: or_str_def)

lemma resolvable_iff:
  "redis_url_resolvable cfg penv
     = truthy_str (or_str (RedisConfig.redisUrl cfg) (penv ''REDIS_URL''))"
  unfolding truthy_or_str by (simp add: redis_url_resolvable_def truthy_str_def)

lemma createRedisCache_disabled:
  "penv ''REDIS_CACHE_ENABLED'' \<noteq> Some ''true'' \<Longrightarrow> snd (createRedisCache cfg penv) = Inr (NoOp ())"
  by (simp add: createRedisCache_def)

lemma createRedisCache_no_url:
  "\<not> redis_url_resolvable cfg penv \<Longrightarrow> snd (createRedisCache cfg penv) = Inr (NoOp ())"
  by (simp add: createRedisCache_def resolvable_iff Let_def)

lemma createRedisCache_Redis:
  assumes "snd (createRedisCache cfg penv) = Inr (Redis c)"
  shows "penv ''REDIS_CACHE_ENABLED'' = Some ''true'' \<and> redis_url_resolvable cfg penv"
proof -
  have en: "penv ''REDIS_CACHE_ENABLED'' = Some ''true''"
    using assms createRedisCache_disabled [of penv cfg] by auto
  have "redis_url_resolvable cfg penv"
    using assms createRedisCache_no_url [of cfg penv] by auto
  with en show ?thesis by simp
qed

text \<open>
  C10. The factory gives the no-op cache unless \<open>REDIS_CACHE_ENABLED\<close> is exactly
  \<open>true\<close> and a Redis URL is resolvable; a \<open>RedisCache\<close> comes back only when both
  hold; with the variable unset the cache is the no-op one whatever URL is configured.
\<close>

theorem createRedisCache_noop_unless_enabled:
  "(\<not> (penv ''REDIS_CACHE_ENABLED'' = Some ''true'' \<and> redis_url_resolvable cfg penv)
      \<longrightarrow> snd (createRedisCache cfg penv) = Inr (NoOp ()))
   \<and> (\<forall>c. snd (createRedisCache cfg penv) = Inr (Redis c)
      \<longrightarrow> penv ''REDIS_CACHE_ENABLED'' = Some ''true'' \<and> redis_url_resolvable cfg penv)
   \<and> (penv ''REDIS_CACHE_ENABLED'' = None
      \<longrightarrow> snd (createRedisCache (cfg\<lparr>RedisConfig.redisUrl := Some u\<rparr>) penv) = Inr (NoOp ()))"
proof (intro conjI impI allI)
  assume "\<not> (penv ''REDIS_CACHE_ENABLED'' = Some ''true'' \<and> redis_url_resolvable cfg penv)"
  then show "snd (createRedisCache cfg penv) = Inr (NoOp ())"
    using createRedisCache_disabled createRedisCache_no_url by blast
next
  fix c assume "snd (createRedisCache cfg penv) = Inr (Redis c)"
  then show "penv ''REDIS_CACHE_ENABLED'' = Some ''true''"
    using createRedisCache_Redis by blast
next
  fix c assume "snd (createRedisCache cfg penv) = Inr (Redis c)"
  then show "redis_url_resolvable cfg penv"
    using createRedisCache_Redis by blast
next
  assume "penv ''REDIS_CACHE_ENABLED'' = None"
  then show "snd (createRedisCache (cfg\<lparr>RedisConfig.redisUrl := Some u\<rparr>) penv) = Inr (NoOp ())"
    by (simp add: createRedisCache_disabled)
qed

text \<open>
  The theorem at three environments: caching not enabled although a URL is configured,
  enabled without a URL, and enabled with the URL in \<open>REDIS_URL\<close>, where the factory
  does build the \<open>RedisCache\<close>.
\<close>

definition redis_cfg :: RedisConfig where
  "redis_cfg = \<lparr> RedisConfig.serviceName = Some ''svc'', RedisConfig.redisUrl = None,
                 RedisConfig.defaultTTL = None, RedisConfig.keyPrefix = None,
                 RedisConfig.logger = None \<rparr>"

definition env_of :: "(string \<times> string) list \<Rightarrow> env" where
  "env_of vars = map_of vars"

theorem createRedisCache_noop_unless_enabled_witness:
  "snd (createRedisCache (redis_cfg\<lparr>RedisConfig.redisUrl := Some ''redis://cache:6379''\<rparr>) (env_of []))
      = Inr (NoOp ())
   \<and> snd (createRedisCache redis_cfg (env_of [(''REDIS_CACHE_ENABLED'', ''true'')])) = Inr (NoOp ())
   \<and> snd (createRedisCache redis_cfg
        (env_of [(''REDIS_CACHE_ENABLED'', ''true''), (''REDIS_URL'', ''redis://cache:6379'')]))
      = Inr (Redis \<lparr> RedisCache.serviceName = ''svc'', redisUrl = ''redis://cache:6379'',
                      defaultTTL = 3600, keyPrefix = ''rr:'', logger = consoleLogger,
                      connected = False \<rparr>)
   \<and> env_of [(''REDIS_CACHE_ENABLED'', ''true''), (''REDIS_URL'', ''redis://cache:6379'')]
        ''REDIS_CACHE_ENABLED'' = Some ''true''
   \<and> redis_url_resolvable redis_cfg
        (env_of [(''REDIS_CACHE_ENABLED'', ''true''), (''REDIS_URL'', ''redis://cache:6379'')])"
  using createRedisCache_noop_unless_enabled
          [of "env_of []" redis_cfg "''redis://cache:6379''"]
        createRedisCache_noop_unless_enabled
          [of "env_of [(''REDIS_CACHE_ENABLED'', ''true'')]" redis_cfg "''x''"]
        createRedisCache_noop_unless_enabled
          [of "env_of [(''REDIS_CACHE_ENABLED'', ''true''), (''REDIS_URL'', ''redis://cache:6379'')]"
              redis_cfg "''x''"]
  by (simp add: createRedisCache_def RedisCache_new_def redis_cfg_def env_of_def
        redis_url_resolvable_def truthy_str_def or_str_def or_lit_def nullish_def)

section \<open>kafka-client: the consumer's constructor\<close>

text \<open>
  \<open>consumer.ts\<close>. The constructor checks the five required properties in order, then
  builds the library's client and consumer objects. Those two constructions are the only
  calls it makes outside the package, and it returns them as a trace next to its result:
  a trace that is empty shows that nothing was attempted.
\<close>

record KafkaConfig =
  serviceName :: "string option"
  brokers :: "string list option"
  username :: "string option"
  password :: "string option"
  groupId :: "string option"
  ssl :: "bool option"
  saslMechanism :: "string option"
  clientId :: "string option"
  sessionTimeout :: "int option"
  heartbeatInterval :: "int option"
  logger :: "logger_ref option"

record KafkaClientOptions =
  clientId :: string
  brokers :: "string list"
  ssl :: bool
  mechanism :: string
  username :: string
  password :: string

record ConsumerOptions =
  groupId :: string
  sessionTimeout :: int
  heartbeatInterval :: int

text \<open>\<open>lastProcessedAt\<close> is a \<open>Date\<close> (here a clock reading) or \<open>null\<close>.\<close>

record ConsumerStats =
  processedCount :: nat
  errorCount :: nat
  lastProcessedAt :: "nat option"
  isRunning :: bool

record KafkaConsumer =
  config :: KafkaConfig
  logger :: logger_ref
  isRunning :: bool
  stats :: ConsumerStats

datatype kafka_call = NewKafka KafkaClientOptions | NewConsumer ConsumerOptions

definition KafkaConsumer_new :: "KafkaConfig \<Rightarrow> kafka_call list \<times> (thrown + KafkaConsumer)" where
  "KafkaConsumer_new cfg =
     (if \<not> truthy_str (KafkaConfig.serviceName cfg) then
        ([], Inl (Error ''KafkaConfig.serviceName is required''))
      else if KafkaConfig.brokers cfg = None \<or> length (the (KafkaConfig.brokers cfg)) = 0 then
        ([], Inl (Error ''KafkaConfig.brokers is required''))
      else if \<not> truthy_str (KafkaConfig.username cfg) then
        ([], Inl (Error ''KafkaConfig.username is required''))
      else if \<not> truthy_str (KafkaConfig.password cfg) then
        ([], Inl (Error ''KafkaConfig.password is required''))
      else if \<not> truthy_str (KafkaConfig.groupId cfg) then
        ([], Inl (Error ''KafkaConfig.groupId is required''))
      else
        let mechanism = or_lit (KafkaConfig.saslMechanism cfg) ''plain'';
            kafka = \<lparr> KafkaClientOptions.clientId =
                        or_lit (KafkaConfig.clientId cfg) (the (KafkaConfig.serviceName cfg)),
                      KafkaClientOptions.brokers = the (KafkaConfig.brokers cfg),
                      KafkaClientOptions.ssl = (KafkaConfig.ssl cfg \<noteq> Some False),
                      KafkaClientOptions.mechanism = mechanism,
                      KafkaClientOptions.username = the (KafkaConfig.username cfg),
                      KafkaClientOptions.password = the (KafkaConfig.password cfg) \<rparr>;
            consumer = \<lparr> ConsumerOptions.groupId = the (KafkaConfig.groupId cfg),
                         ConsumerOptions.sessionTimeout = nullish (KafkaConfig.sessionTimeout cfg) 30000,
                         ConsumerOptions.heartbeatInterval = nullish (KafkaConfig.heartbeatInterval cfg) 3000 \<rparr>
        in ([NewKafka kafka, NewConsumer consumer],
            Inr \<lparr> KafkaConsumer.config = cfg,
                  KafkaConsumer.logger = or_console (KafkaConfig.logger cfg),
                  KafkaConsumer.isRunning = False,
                  KafkaConsumer.stats = \<lparr> processedCount = 0, errorCount = 0,
                                          lastProcessedAt = None, ConsumerStats.isRunning = False \<rparr> \<rparr>))"

section \<open>postgres-client: the client's constructor\<close>

text \<open>
  \<open>client.ts\<close>. \<open>ssl\<close> in the pool's configuration is \<open>{ rejectUnauthorized: false }\<close>
  or \<open>false\<close>; the model keeps whether it is set.
\<close>

record PostgresConfig =
  serviceName :: "string option"
  schemaName :: "string option"
  host :: "string option"
  port :: "int option"
  database :: "string option"
  user :: "string option"
  password :: "string option"
  ssl :: "bool option"
  poolSize :: "int option"
  idleTimeout :: "int option"
  connectionTimeout :: "int option"
  logger :: "logger_ref option"

record PoolConfig =
  host :: string
  port :: jsnum
  database :: string
  user :: string
  password :: string
  ssl :: bool
  max :: int
  idleTimeoutMillis :: int
  connectionTimeoutMillis :: int
  options :: string

record PostgresClient =
  config :: PostgresConfig
  logger :: logger_ref
  pool :: PoolConfig
  connected :: bool

datatype pg_call = NewPool PoolConfig | PoolOn string

text \<open>\<open>config.port || n\<close>: a port of 0 is falsy.\<close>

definition or_port :: "int option \<Rightarrow> jsnum \<Rightarrow> jsnum" where
  "or_port a d = (case a of None \<Rightarrow> d | Some n \<Rightarrow> if n \<noteq> 0 then Number (of_int n) else d)"

definition poolConfig :: "PostgresConfig \<Rightarrow> env \<Rightarrow> PoolConfig" where
  "poolConfig cfg penv =
     \<lparr> PoolConfig.host = or_lit (or_str (PostgresConfig.host cfg) (penv ''PGHOST'')) ''localhost'',
       PoolConfig.port = or_port (PostgresConfig.port cfg)
                           (parseInt10 (or_lit (penv ''PGPORT'') ''5432'')),
       PoolConfig.database =
         or_lit (or_str (PostgresConfig.database cfg) (penv ''PGDATABASE'')) ''railrepay'',
       PoolConfig.user = or_lit (or_str (PostgresConfig.user cfg) (penv ''PGUSER'')) ''postgres'',
       PoolConfig.password =
         or_lit (or_str (PostgresConfig.password cfg) (penv ''PGPASSWORD'')) ''postgres'',
       PoolConfig.ssl = nullish (PostgresConfig.ssl cfg) (penv ''PGSSLMODE'' = Some ''require''),
       PoolConfig.max = nullish (PostgresConfig.poolSize cfg) 20,
       PoolConfig.idleTimeoutMillis = nullish (PostgresConfig.idleTimeout cfg) 30000,
       PoolConfig.connectionTimeoutMillis = nullish (PostgresConfig.connectionTimeout cfg) 5000,
       PoolConfig.options =
         ''-c search_path='' @ template (PostgresConfig.schemaName cfg) @ '',public'' \<rparr>"

definition PostgresClient_new :: "PostgresConfig \<Rightarrow> env \<Rightarrow> pg_call list \<times> (thrown + PostgresClient)" where
  "PostgresClient_new cfg penv =
     (if \<not> truthy_str (PostgresConfig.serviceName cfg) then
        ([], Inl (Error ''PostgresConfig.serviceName is required''))
      else if \<not> truthy_str (PostgresConfig.schemaName cfg) then
        ([], Inl (Error ''PostgresConfig.schemaName is required''))
      else
        ([NewPool (poolConfig cfg penv), PoolOn ''error'', PoolOn ''connect''],
         Inr \<lparr> PostgresClient.config = cfg,
               PostgresClient.logger = or_console (PostgresConfig.logger cfg),
               PostgresClient.pool = poolConfig cfg penv,
               PostgresClient.connected = False \<rparr>))"

section \<open>winston-logger: the logger factory\<close>

text \<open>
  \<open>logger.ts\<close>. The optional properties get their defaults in the destructuring of
  \<open>config\<close>: such a default applies only when the property is \<open>undefined\<close>, so an
  empty string that is supplied is kept. The service name is checked after that and
  before any transport is built. Whether the Loki transport's constructor throws is an
  input, \<open>loki\<close>.
\<close>

record LoggerConfig =
  serviceName :: "string option"
  level :: "string option"
  lokiHost :: "string option"
  lokiEnabled :: "bool option"
  lokiBasicAuth :: "string option"
  environment :: "string option"

record LokiOptions =
  host :: string
  basicAuth :: "string option"
  app :: string
  environment :: string

datatype transport = Console string | Loki LokiOptions

record Logger =
  level :: string
  app :: string
  environment :: string
  transports :: "transport list"

datatype logger_call = NewLokiTransport LokiOptions | ConsoleWarn string

definition createLogger ::
  "LoggerConfig \<Rightarrow> env \<Rightarrow> (LokiOptions \<Rightarrow> thrown option) \<Rightarrow> logger_call list \<times> (thrown + Logger)" where
  "createLogger cfg penv loki =
     (let serviceName = LoggerConfig.serviceName cfg;
          level = nullish (LoggerConfig.level cfg) (or_lit (penv ''LOG_LEVEL'') ''info'');
          lokiHost = nullish (LoggerConfig.lokiHost cfg)
                       (or_lit (penv ''LOKI_HOST'') ''http://localhost:3100'');
          lokiEnabled = nullish (LoggerConfig.lokiEnabled cfg) (penv ''LOKI_ENABLED'' = Some ''true'');
          lokiBasicAuth = (case LoggerConfig.lokiBasicAuth cfg of
                             None \<Rightarrow> penv ''LOKI_BASIC_AUTH'' | Some a \<Rightarrow> Some a);
          environment = nullish (LoggerConfig.environment cfg)
                          (or_lit (or_str (penv ''ENVIRONMENT'') (penv ''NODE_ENV'')) ''development'')
      in if \<not> truthy_str serviceName then
           ([], Inl (Error ''LoggerConfig.serviceName is required''))
         else
           let opts = \<lparr> LokiOptions.host = lokiHost, LokiOptions.basicAuth = lokiBasicAuth,
                        LokiOptions.app = the serviceName, LokiOptions.environment = environment \<rparr>;
               (calls, extra) =
                 (if lokiEnabled \<and> penv ''NODE_ENV'' \<noteq> Some ''test'' then
                    (case loki opts of
                       None \<Rightarrow> ([NewLokiTransport opts], [Loki opts])
                     | Some _ \<Rightarrow>
                         ([NewLokiTransport opts,
                           ConsoleWarn (''['' @ the serviceName
                             @ ''] Failed to initialize Loki transport, using console only'')], []))
                  else ([], []))
           in (calls,
               Inr \<lparr> Logger.level = level, Logger.app = the serviceName,
                     Logger.environment = environment,
                     Logger.transports = Console level # extra \<rparr>))"

section \<open>openapi-validator: the middleware factory\<close>

text \<open>
  \<open>middleware.ts\<close>, \<open>createOpenAPIMiddleware\<close>. \<open>OpenAPIConfig\<close> has no service name.
  An ignored path is a string or a regular expression (its source text). What the factory
  returns is what the library's \<open>middleware\<close> builds from the options it is given.
\<close>

datatype ignore_path = PathString string | PathRegExp string

record OpenAPIConfig =
  schemaPath :: "string option"
  validateRequests :: "bool option"
  validateResponses :: "bool option"
  ignorePaths :: "ignore_path list option"
  logger :: "logger_ref option"

record ValidatorOptions =
  apiSpec :: string
  validateRequests :: bool
  validateResponses :: bool
  ignorePaths :: "string option"

datatype openapi_call = LoggerInfo logger_ref string | ValidatorMiddleware ValidatorOptions

text \<open>\<open>p.replace(/[.*+?^${}()|[\]\\]/g, '\\$&')\<close>: a backslash before each special character.\<close>

definition escape_regexp :: "string \<Rightarrow> string" where
  "escape_regexp p =
     concat (map (\<lambda>c. if c \<in> set (''.*+?^${}()|[]'' @ [CHR 0x5C]) then [CHR 0x5C, c] else [c]) p)"

fun join :: "string \<Rightarrow> string list \<Rightarrow> string" where
  "join sep [] = []"
| "join sep [x] = x"
| "join sep (x # y # ys) = x @ sep @ join sep (y # ys)"

definition ignore_source :: "ignore_path \<Rightarrow> string" where
  "ignore_source p = (case p of PathString s \<Rightarrow> escape_regexp s | PathRegExp src \<Rightarrow> src)"

definition createOpenAPIMiddleware ::
  "OpenAPIConfig \<Rightarrow> env \<Rightarrow> openapi_call list \<times> (thrown + ValidatorOptions)" where
  "createOpenAPIMiddleware cfg penv =
     (if \<not> truthy_str (OpenAPIConfig.schemaPath cfg) then
        ([], Inl (Error ''OpenAPIConfig.schemaPath is required''))
      else
        let logger = or_console (OpenAPIConfig.logger cfg);
            validateRequests = (OpenAPIConfig.validateRequests cfg \<noteq> Some False);
            validateResponses = nullish (OpenAPIConfig.validateResponses cfg)
                                  (penv ''NODE_ENV'' = Some ''development'');
            ignorePaths = nullish (OpenAPIConfig.ignorePaths cfg) [];
            options = \<lparr> ValidatorOptions.apiSpec = the (OpenAPIConfig.schemaPath cfg),
                         ValidatorOptions.validateRequests = validateRequests,
                         ValidatorOptions.validateResponses = validateResponses,
                         ValidatorOptions.ignorePaths =
                           (if length ignorePaths > 0
                            then Some (''^('' @ join ''|'' (map ignore_source ignorePaths) @ '')'')
                            else None) \<rparr>
        in ([LoggerInfo logger ''Initializing OpenAPI validator'', ValidatorMiddleware options],
            Inr options))"

section \<open>metrics-pusher: the pusher's constructor\<close>

text \<open>
  \<open>pusher.ts\<close>. The constructor only fills the fields; it calls nothing outside the
  class. \<open>intervalId\<close> is the timer's handle when one is set.
\<close>

record MetricsConfig =
  serviceName :: "string option"
  alloyUrl :: "string option"
  pushInterval :: "int option"
  environment :: "string option"
  logger :: "logger_ref option"

record MetricsPusher =
  intervalId :: "nat option"
  pushIntervalMs :: int
  alloyUrl :: string
  serviceName :: string
  environment :: string
  isRunning :: bool
  logger :: logger_ref

definition MetricsPusher_new :: "MetricsConfig \<Rightarrow> env \<Rightarrow> thrown + MetricsPusher" where
  "MetricsPusher_new cfg penv =
     (if \<not> truthy_str (MetricsConfig.serviceName cfg) then
        Inl (Error ''MetricsConfig.serviceName is required'')
      else Inr \<lparr>
        MetricsPusher.intervalId = None,
        MetricsPusher.pushIntervalMs = nullish (MetricsConfig.pushInterval cfg) 15 * 1000,
        MetricsPusher.alloyUrl =
          or_lit (or_str (MetricsConfig.alloyUrl cfg) (penv ''ALLOY_PUSH_URL'')) [],
        MetricsPusher.serviceName = the (MetricsConfig.serviceName cfg),
        MetricsPusher.environment =
          or_lit (or_str (MetricsConfig.environment cfg) (penv ''NODE_ENV'')) ''development'',
        MetricsPusher.isRunning = False,
        MetricsPusher.logger = or_console (MetricsConfig.logger cfg) \<rparr>)"

section \<open>Required configuration properties\<close>

text \<open>
  A construction fails fast when it throws an \<open>Error\<close> and its trace of outside calls
  is empty.
\<close>

definition throws_before_any_call :: "'c list \<times> (thrown + 'a) \<Rightarrow> bool" where
  "throws_before_any_call r =
     (fst r = [] \<and> (case snd r of Inl (Error _) \<Rightarrow> True | _ \<Rightarrow> False))"

lemma truthy_str_None [simp]: "\<not> truthy_str None"
  by (simp add: truthy_str_def)

lemma Kafka_required:
  assumes "KafkaConfig.serviceName k = None \<or> KafkaConfig.brokers k = None
         \<or> KafkaConfig.username k = None \<or> KafkaConfig.password k = None
         \<or> KafkaConfig.groupId k = None"
  shows "throws_before_any_call (KafkaConsumer_new k)"
  using assms by (auto simp: KafkaConsumer_new_def throws_before_any_call_def)

lemma Postgres_required:
  assumes "PostgresConfig.serviceName pg = None \<or> PostgresConfig.schemaName pg = None"
  shows "throws_before_any_call (PostgresClient_new pg penv)"
  using assms by (auto simp: PostgresClient_new_def throws_before_any_call_def)

lemma Logger_required:
  assumes "LoggerConfig.serviceName l = None"
  shows "throws_before_any_call (createLogger l penv loki)"
  using assms by (simp add: createLogger_def throws_before_any_call_def Let_def)

lemma OpenAPI_required:
  assumes "OpenAPIConfig.schemaPath oa = None"
  shows "throws_before_any_call (createOpenAPIMiddleware oa penv)"
  using assms by (simp add: createOpenAPIMiddleware_def throws_before_any_call_def)

text \<open>
  C5, as the code has it. A construction without a property that the component documents
  as required throws at once, before any call outside the package: the service name for
  the Kafka consumer, the Postgres client, the metrics pusher, the logger and the Redis
  cache; the brokers, user name, password and group for the Kafka consumer; the schema
  name for the Postgres client; the schema path for the OpenAPI middleware, whose
  configuration has no service name.
\<close>

theorem required_fields_fail_fast:
  "(KafkaConfig.serviceName k = None \<or> KafkaConfig.brokers k = None
      \<or> KafkaConfig.username k = None \<or> KafkaConfig.password k = None
      \<or> KafkaConfig.groupId k = None
     \<longrightarrow> throws_before_any_call (KafkaConsumer_new k))
   \<and> (PostgresConfig.serviceName pg = None \<or> PostgresConfig.schemaName pg = None
     \<longrightarrow> throws_before_any_call (PostgresClient_new pg penv))
   \<and> (MetricsConfig.serviceName m = None
     \<longrightarrow> MetricsPusher_new m penv = Inl (Error ''MetricsConfig.serviceName is required''))
   \<and> (LoggerConfig.serviceName l = None
     \<longrightarrow> throws_before_any_call (createLogger l penv loki))
   \<and> (RedisConfig.serviceName r = None
     \<longrightarrow> RedisCache_new r penv = Inl (Error ''RedisConfig.serviceName is required''))
   \<and> (OpenAPIConfig.schemaPath oa = None
     \<longrightarrow> throws_before_any_call (createOpenAPIMiddleware oa penv))"
proof (intro conjI impI)
  show "MetricsConfig.serviceName m = None
    \<Longrightarrow> MetricsPusher_new m penv = Inl (Error ''MetricsConfig.serviceName is required'')"
    by (simp add: MetricsPusher_new_def)
  show "RedisConfig.serviceName r = None
    \<Longrightarrow> RedisCache_new r penv = Inl (Error ''RedisConfig.serviceName is required'')"
    by (simp add: RedisCache_new_def)
qed (simp_all add: Kafka_required Postgres_required Logger_required OpenAPI_required)

text \<open>Configurations that lack everything (\<open>{}\<close>), and one that lacks only the group.\<close>

definition kafka_empty :: KafkaConfig where
  "kafka_empty = \<lparr> KafkaConfig.serviceName = None, brokers = None, username = None,
                   password = None, groupId = None, ssl = None, saslMechanism = None,
                   clientId = None, sessionTimeout = None, heartbeatInterval = None,
                   KafkaConfig.logger = None \<rparr>"

definition kafka_no_group :: KafkaConfig where
  "kafka_no_group = kafka_empty \<lparr> KafkaConfig.serviceName := Some ''svc'',
                                  KafkaConfig.brokers := Some [''kafka:9092''],
                                  KafkaConfig.username := Some ''user'',
                                  KafkaConfig.password := Some ''pass'' \<rparr>"

definition postgres_empty :: PostgresConfig where
  "postgres_empty = \<lparr> PostgresConfig.serviceName = None, schemaName = None, host = None,
                      port = None, database = None, user = None, password = None, ssl = None,
                      poolSize = None, idleTimeout = None, connectionTimeout = None,
                      PostgresConfig.logger = None \<rparr>"

definition metrics_empty :: MetricsConfig where
  "metrics_empty = \<lparr> MetricsConfig.serviceName = None, MetricsConfig.alloyUrl = None,
                     MetricsConfig.pushInterval = None, MetricsConfig.environment = None,
                     MetricsConfig.logger = None \<rparr>"

definition logger_empty :: LoggerConfig where
  "logger_empty = \<lparr> LoggerConfig.serviceName = None, level = None, lokiHost = None,
                    lokiEnabled = None, lokiBasicAuth = None, environment = None \<rparr>"

definition redis_empty :: RedisConfig where
  "redis_empty = \<lparr> RedisConfig.serviceName = None, RedisConfig.redisUrl = None,
                   RedisConfig.defaultTTL = None, RedisConfig.keyPrefix = None,
                   RedisConfig.logger = None \<rparr>"

definition openapi_empty :: OpenAPIConfig where
  "openapi_empty = \<lparr> schemaPath = None, OpenAPIConfig.validateRequests = None,
                     OpenAPIConfig.validateResponses = None, OpenAPIConfig.ignorePaths = None,
                     OpenAPIConfig.logger = None \<rparr>"

theorem required_fields_fail_fast_witness:
  "KafkaConsumer_new kafka_no_group = ([], Inl (Error ''KafkaConfig.groupId is required''))
   \<and> throws_before_any_call (KafkaConsumer_new kafka_no_group)
   \<and> throws_before_any_call (PostgresClient_new postgres_empty (env_of []))
   \<and> MetricsPusher_new metrics_empty (env_of [])
        = Inl (Error ''MetricsConfig.serviceName is required'')
   \<and> throws_before_any_call (createLogger logger_empty (env_of []) (\<lambda>_. None))
   \<and> RedisCache_new redis_empty (env_of []) = Inl (Error ''RedisConfig.serviceName is required'')
   \<and> throws_before_any_call (createOpenAPIMiddleware openapi_empty (env_of []))"
  using required_fields_fail_fast
          [where k = kafka_no_group and pg = postgres_empty and m = metrics_empty
             and l = logger_empty and r = redis_empty and oa = openapi_empty
             and penv = "env_of []" and loki = "\<lambda>_. None"]
  by (simp add: kafka_no_group_def kafka_empty_def postgres_empty_def metrics_empty_def
        logger_empty_def redis_empty_def openapi_empty_def KafkaConsumer_new_def truthy_str_def)

text \<open>
  The service name is not required everywhere. The OpenAPI middleware is built from a
  configuration that has a schema path and nothing else, and the cache factory, given a
  configuration without a service name, returns the no-op cache when caching is not
  enabled.
\<close>

theorem service_name_not_required_everywhere:
  "createOpenAPIMiddleware (openapi_empty\<lparr>schemaPath := Some ''./openapi.yaml''\<rparr>) (env_of [])
     = ([LoggerInfo consoleLogger ''Initializing OpenAPI validator'',
         ValidatorMiddleware \<lparr> apiSpec = ''./openapi.yaml'', validateRequests = True,
                               validateResponses = False, ignorePaths = None \<rparr>],
        Inr \<lparr> apiSpec = ''./openapi.yaml'', validateRequests = True,
              validateResponses = False, ignorePaths = None \<rparr>)
   \<and> RedisConfig.serviceName redis_empty = None
   \<and> createRedisCache redis_empty (env_of [])
     = ([(LInfo, ''[undefined] Redis caching disabled (REDIS_CACHE_ENABLED=false)'')],
        Inr (NoOp ()))"
  by (simp add: createOpenAPIMiddleware_def openapi_empty_def truthy_str_def nullish_def
        env_of_def createRedisCache_def redis_empty_def template_def Let_def)

section \<open>Resolution of optional properties\<close>

text \<open>
  The order the code follows, for a property that has an environment variable: the
  sources are read in order and the first one that gives a non-empty string is used; the
  literal default is used when none does.
\<close>

fun first_given :: "string option list \<Rightarrow> string \<Rightarrow> string" where
  "first_given [] d = d"
| "first_given (None # xs) d = first_given xs d"
| "first_given (Some v # xs) d = (if v = [] then first_given xs d else v)"

text \<open>
  The order in the spec's words: a source counts as soon as it is there at all, so a
  configuration value that is supplied is used even when it is the empty string.
\<close>

fun first_present :: "string option list \<Rightarrow> string \<Rightarrow> string" where
  "first_present [] d = d"
| "first_present (None # xs) d = first_present xs d"
| "first_present (Some v # xs) d = v"

lemma or_lit_or_str: "or_lit (or_str a b) d = first_given [a, b] d"
  by (cases a; cases b) (auto simp: or_lit_def or_str_def truthy_str_def)

lemma or_lit_first: "or_lit a d = first_given [a] d"
  by (cases a) (auto simp: or_lit_def)

lemma poolConfig_strings:
  "PoolConfig.host (poolConfig pg penv) = first_given [PostgresConfig.host pg, penv ''PGHOST''] ''localhost''"
  "PoolConfig.database (poolConfig pg penv)
     = first_given [PostgresConfig.database pg, penv ''PGDATABASE''] ''railrepay''"
  "PoolConfig.user (poolConfig pg penv) = first_given [PostgresConfig.user pg, penv ''PGUSER''] ''postgres''"
  "PoolConfig.password (poolConfig pg penv)
     = first_given [PostgresConfig.password pg, penv ''PGPASSWORD''] ''postgres''"
  by (simp_all add: poolConfig_def or_lit_or_str)

lemma poolConfig_port:
  "PostgresConfig.port pg = Some n \<Longrightarrow> n \<noteq> 0 \<Longrightarrow> PoolConfig.port (poolConfig pg penv) = Number (of_int n)"
  "PostgresConfig.port pg = None \<or> PostgresConfig.port pg = Some 0
     \<Longrightarrow> PoolConfig.port (poolConfig pg penv) = parseInt10 (first_given [penv ''PGPORT''] ''5432'')"
  by (auto simp: poolConfig_def or_port_def or_lit_first)

lemma pusher_resolved:
  assumes "MetricsPusher_new m penv = Inr p"
  shows "MetricsPusher.alloyUrl p = first_given [MetricsConfig.alloyUrl m, penv ''ALLOY_PUSH_URL''] []"
    and "MetricsPusher.environment p
           = first_given [MetricsConfig.environment m, penv ''NODE_ENV''] ''development''"
    and "MetricsPusher.pushIntervalMs p
           = (case MetricsConfig.pushInterval m of None \<Rightarrow> 15000 | Some n \<Rightarrow> n * 1000)"
  using assms
  by (auto simp: MetricsPusher_new_def or_lit_or_str nullish_def split: if_splits option.splits)

lemma logger_resolved:
  assumes "snd (createLogger l penv loki) = Inr lg"
  shows "Logger.level lg
           = (case LoggerConfig.level l of Some v \<Rightarrow> v | None \<Rightarrow> first_given [penv ''LOG_LEVEL''] ''info'')"
    and "Logger.environment lg
           = (case LoggerConfig.environment l of Some v \<Rightarrow> v
              | None \<Rightarrow> first_given [penv ''ENVIRONMENT'', penv ''NODE_ENV''] ''development'')"
proof -
  have shape: "Logger.level lg = nullish (LoggerConfig.level l) (or_lit (penv ''LOG_LEVEL'') ''info'')
      \<and> Logger.environment lg = nullish (LoggerConfig.environment l)
            (or_lit (or_str (penv ''ENVIRONMENT'') (penv ''NODE_ENV'')) ''development'')"
    using assms
    by (auto simp: createLogger_def Let_def split: if_splits option.splits prod.splits)
  show "Logger.level lg
           = (case LoggerConfig.level l of Some v \<Rightarrow> v | None \<Rightarrow> first_given [penv ''LOG_LEVEL''] ''info'')"
    using shape by (simp add: nullish_def or_lit_first split: option.splits)
  show "Logger.environment lg
           = (case LoggerConfig.environment l of Some v \<Rightarrow> v
              | None \<Rightarrow> first_given [penv ''ENVIRONMENT'', penv ''NODE_ENV''] ''development'')"
    using shape unfolding or_lit_or_str by (simp add: nullish_def split: option.splits)
qed

lemma redis_resolved:
  assumes "RedisCache_new r penv = Inr rc"
  shows "RedisCache.redisUrl rc
           = first_given [RedisConfig.redisUrl r, penv ''REDIS_URL''] ''redis://localhost:6379''"
  using assms by (auto simp: RedisCache_new_def or_lit_or_str split: if_splits)

text \<open>
  \<open>a ?? d\<close>, \<open>a !== false\<close> for a boolean, a destructuring default, and \<open>a || d\<close> for an
  object or an array (always truthy): the value that is supplied, whatever it is, and
  \<open>d\<close> only when none is.
\<close>

fun supplied_else :: "'a option \<Rightarrow> 'a \<Rightarrow> 'a" where
  "supplied_else (Some v) d = v"
| "supplied_else None d = d"

lemma nullish_supplied: "nullish a d = supplied_else a d"
  by (cases a) (simp_all add: nullish_def)

lemma or_console_supplied: "or_console a = supplied_else a consoleLogger"
  by (cases a) simp_all

lemma not_false_supplied: "(a \<noteq> Some False) = supplied_else a True"
  by (cases a) auto

lemma kafka_resolved:
  assumes "KafkaConsumer_new k = (calls, Inr c)"
  shows "calls =
      [NewKafka \<lparr> KafkaClientOptions.clientId =
                    first_given [KafkaConfig.clientId k] (the (KafkaConfig.serviceName k)),
                  KafkaClientOptions.brokers = the (KafkaConfig.brokers k),
                  KafkaClientOptions.ssl = supplied_else (KafkaConfig.ssl k) True,
                  KafkaClientOptions.mechanism = first_given [KafkaConfig.saslMechanism k] ''plain'',
                  KafkaClientOptions.username = the (KafkaConfig.username k),
                  KafkaClientOptions.password = the (KafkaConfig.password k) \<rparr>,
       NewConsumer \<lparr> ConsumerOptions.groupId = the (KafkaConfig.groupId k),
                     ConsumerOptions.sessionTimeout = supplied_else (KafkaConfig.sessionTimeout k) 30000,
                     ConsumerOptions.heartbeatInterval
                       = supplied_else (KafkaConfig.heartbeatInterval k) 3000 \<rparr>]"
    and "KafkaConsumer.logger c = supplied_else (KafkaConfig.logger k) consoleLogger"
  using assms
  by (auto simp: KafkaConsumer_new_def Let_def or_lit_first nullish_supplied or_console_supplied
        not_false_supplied split: if_splits)

lemma poolConfig_others:
  "PoolConfig.ssl (poolConfig pg penv)
     = supplied_else (PostgresConfig.ssl pg) (penv ''PGSSLMODE'' = Some ''require'')"
  "PoolConfig.max (poolConfig pg penv) = supplied_else (PostgresConfig.poolSize pg) 20"
  "PoolConfig.idleTimeoutMillis (poolConfig pg penv)
     = supplied_else (PostgresConfig.idleTimeout pg) 30000"
  "PoolConfig.connectionTimeoutMillis (poolConfig pg penv)
     = supplied_else (PostgresConfig.connectionTimeout pg) 5000"
  by (simp_all add: poolConfig_def nullish_supplied)

lemma postgres_client_resolved:
  assumes "PostgresClient_new pg penv = (calls, Inr c)"
  shows "calls = [NewPool (poolConfig pg penv), PoolOn ''error'', PoolOn ''connect'']"
    and "PostgresClient.logger c = supplied_else (PostgresConfig.logger pg) consoleLogger"
  using assms
  by (auto simp: PostgresClient_new_def or_console_supplied split: if_splits)

lemma pusher_resolved_others:
  assumes "MetricsPusher_new m penv = Inr p"
  shows "MetricsPusher.pushIntervalMs p = supplied_else (MetricsConfig.pushInterval m) 15 * 1000"
    and "MetricsPusher.logger p = supplied_else (MetricsConfig.logger m) consoleLogger"
  using assms
  by (auto simp: MetricsPusher_new_def nullish_supplied or_console_supplied split: if_splits)

lemma redis_resolved_others:
  assumes "RedisCache_new r penv = Inr rc"
  shows "RedisCache.defaultTTL rc = supplied_else (RedisConfig.defaultTTL r) 3600"
    and "RedisCache.keyPrefix rc = supplied_else (RedisConfig.keyPrefix r) ''rr:''"
    and "RedisCache.logger rc = supplied_else (RedisConfig.logger r) consoleLogger"
  using assms
  by (auto simp: RedisCache_new_def nullish_supplied or_console_supplied split: if_splits)

lemma logger_loki_resolved:
  assumes "createLogger l penv loki = (calls, Inr lg)"
  shows "\<forall>opts. NewLokiTransport opts \<in> set calls \<longrightarrow>
           LokiOptions.host opts
             = supplied_else (LoggerConfig.lokiHost l)
                 (first_given [penv ''LOKI_HOST''] ''http://localhost:3100'')
         \<and> LokiOptions.basicAuth opts
             = (case LoggerConfig.lokiBasicAuth l of Some a \<Rightarrow> Some a
                | None \<Rightarrow> penv ''LOKI_BASIC_AUTH'')"
    and "(\<exists>opts. NewLokiTransport opts \<in> set calls)
           = (supplied_else (LoggerConfig.lokiEnabled l) (penv ''LOKI_ENABLED'' = Some ''true'')
              \<and> penv ''NODE_ENV'' \<noteq> Some ''test'')"
  using assms
  by (auto simp: createLogger_def Let_def or_lit_first nullish_supplied
           split: if_splits option.splits prod.splits)

lemma openapi_resolved:
  assumes "createOpenAPIMiddleware oa penv = (calls, Inr vo)"
  shows "ValidatorOptions.validateRequests vo = supplied_else (OpenAPIConfig.validateRequests oa) True"
    and "ValidatorOptions.validateResponses vo
           = supplied_else (OpenAPIConfig.validateResponses oa) (penv ''NODE_ENV'' = Some ''development'')"
    and "ValidatorOptions.ignorePaths vo
           = (if supplied_else (OpenAPIConfig.ignorePaths oa) [] = [] then None
              else Some (''^('' @ join ''|'' (map ignore_source
                           (supplied_else (OpenAPIConfig.ignorePaths oa) [])) @ '')''))"
    and "calls = [LoggerInfo (supplied_else (OpenAPIConfig.logger oa) consoleLogger)
                    ''Initializing OpenAPI validator'',
                  ValidatorMiddleware vo]"
  using assms
  by (auto simp: createOpenAPIMiddleware_def Let_def nullish_supplied or_console_supplied
        not_false_supplied split: if_splits)

text \<open>
  C8, as the code has it, for every optional property of every component. Each is
  resolved in one fixed order: the configuration's value, then the environment variable
  where the code names one, then the literal default. What differs is when a source
  counts.

  \<^item> Resolved with \<open>||\<close> (\<open>first_given\<close>): the Postgres host, database, user and password,
    the pusher's Alloy URL and environment, the Redis URL, the Kafka client id (its
    default is the service name) and SASL mechanism. A configuration value or a variable
    counts only when it is not empty. The Postgres port is the configuration's when
    supplied and not 0, else what \<open>parseInt\<close> reads from \<open>PGPORT\<close>, or from \<open>5432\<close> when
    that is unset or empty.
  \<^item> Resolved with \<open>??\<close>, \<open>!== false\<close> or a destructuring default (\<open>supplied_else\<close>): the
    Postgres \<open>ssl\<close>, pool size and two timeouts, the Kafka \<open>ssl\<close>, session timeout and
    heartbeat interval, the Redis default TTL and key prefix, the pusher's push interval
    (seconds, stored in milliseconds), the logger's level, environment, Loki host, Loki
    switch and Loki credentials, the validator's two switches and its ignored paths, and
    the logger instance of the five components that take one. A configuration value
    that is supplied is used whatever it is. Behind it a variable is read with \<open>||\<close>
    (\<open>LOG_LEVEL\<close>, \<open>LOKI_HOST\<close>, \<open>ENVIRONMENT\<close> then \<open>NODE_ENV\<close>), as it is
    (\<open>LOKI_BASIC_AUTH\<close>), or compared with one word (\<open>PGSSLMODE\<close> with \<open>require\<close>,
    \<open>LOKI_ENABLED\<close> with \<open>true\<close>, \<open>NODE_ENV\<close> with \<open>development\<close>).

  The resolved values are read where the code puts them: in the fields of the object
  built, or in the options handed to the library's constructor. The Loki options are
  those of the transport the factory builds, which it does exactly when the resolved
  switch is on and \<open>NODE_ENV\<close> is not \<open>test\<close>.
\<close>

theorem optional_fields_precedence:
  "(KafkaConsumer_new k = (kcalls, Inr kc) \<longrightarrow>
      kcalls =
        [NewKafka \<lparr> KafkaClientOptions.clientId =
                      first_given [KafkaConfig.clientId k] (the (KafkaConfig.serviceName k)),
                    KafkaClientOptions.brokers = the (KafkaConfig.brokers k),
                    KafkaClientOptions.ssl = supplied_else (KafkaConfig.ssl k) True,
                    KafkaClientOptions.mechanism
                      = first_given [KafkaConfig.saslMechanism k] ''plain'',
                    KafkaClientOptions.username = the (KafkaConfig.username k),
                    KafkaClientOptions.password = the (KafkaConfig.password k) \<rparr>,
         NewConsumer \<lparr> ConsumerOptions.groupId = the (KafkaConfig.groupId k),
                       ConsumerOptions.sessionTimeout
                         = supplied_else (KafkaConfig.sessionTimeout k) 30000,
                       ConsumerOptions.heartbeatInterval
                         = supplied_else (KafkaConfig.heartbeatInterval k) 3000 \<rparr>]
      \<and> KafkaConsumer.logger kc = supplied_else (KafkaConfig.logger k) consoleLogger)
   \<and> (PostgresClient_new pg penv = (pcalls, Inr pc) \<longrightarrow>
        pcalls = [NewPool (poolConfig pg penv), PoolOn ''error'', PoolOn ''connect'']
        \<and> PostgresClient.logger pc = supplied_else (PostgresConfig.logger pg) consoleLogger)
   \<and> PoolConfig.host (poolConfig pg penv)
     = first_given [PostgresConfig.host pg, penv ''PGHOST''] ''localhost''
   \<and> PoolConfig.database (poolConfig pg penv)
     = first_given [PostgresConfig.database pg, penv ''PGDATABASE''] ''railrepay''
   \<and> PoolConfig.user (poolConfig pg penv)
     = first_given [PostgresConfig.user pg, penv ''PGUSER''] ''postgres''
   \<and> PoolConfig.password (poolConfig pg penv)
     = first_given [PostgresConfig.password pg, penv ''PGPASSWORD''] ''postgres''
   \<and> (PostgresConfig.port pg = Some n \<and> n \<noteq> 0
        \<longrightarrow> PoolConfig.port (poolConfig pg penv) = Number (of_int n))
   \<and> (PostgresConfig.port pg = None \<or> PostgresConfig.port pg = Some 0
        \<longrightarrow> PoolConfig.port (poolConfig pg penv)
            = parseInt10 (first_given [penv ''PGPORT''] ''5432''))
   \<and> PoolConfig.ssl (poolConfig pg penv)
     = supplied_else (PostgresConfig.ssl pg) (penv ''PGSSLMODE'' = Some ''require'')
   \<and> PoolConfig.max (poolConfig pg penv) = supplied_else (PostgresConfig.poolSize pg) 20
   \<and> PoolConfig.idleTimeoutMillis (poolConfig pg penv)
     = supplied_else (PostgresConfig.idleTimeout pg) 30000
   \<and> PoolConfig.connectionTimeoutMillis (poolConfig pg penv)
     = supplied_else (PostgresConfig.connectionTimeout pg) 5000
   \<and> (MetricsPusher_new m penv = Inr p
        \<longrightarrow> MetricsPusher.alloyUrl p
              = first_given [MetricsConfig.alloyUrl m, penv ''ALLOY_PUSH_URL''] []
          \<and> MetricsPusher.environment p
              = first_given [MetricsConfig.environment m, penv ''NODE_ENV''] ''development''
          \<and> MetricsPusher.pushIntervalMs p
              = supplied_else (MetricsConfig.pushInterval m) 15 * 1000
          \<and> MetricsPusher.logger p = supplied_else (MetricsConfig.logger m) consoleLogger)
   \<and> (createLogger l penv loki = (lcalls, Inr lg)
        \<longrightarrow> Logger.level lg
              = supplied_else (LoggerConfig.level l) (first_given [penv ''LOG_LEVEL''] ''info'')
          \<and> Logger.environment lg
              = supplied_else (LoggerConfig.environment l)
                  (first_given [penv ''ENVIRONMENT'', penv ''NODE_ENV''] ''development'')
          \<and> (\<forall>opts. NewLokiTransport opts \<in> set lcalls \<longrightarrow>
                LokiOptions.host opts
                  = supplied_else (LoggerConfig.lokiHost l)
                      (first_given [penv ''LOKI_HOST''] ''http://localhost:3100'')
                \<and> LokiOptions.basicAuth opts
                  = (case LoggerConfig.lokiBasicAuth l of Some a \<Rightarrow> Some a
                     | None \<Rightarrow> penv ''LOKI_BASIC_AUTH''))
          \<and> (\<exists>opts. NewLokiTransport opts \<in> set lcalls)
              = (supplied_else (LoggerConfig.lokiEnabled l) (penv ''LOKI_ENABLED'' = Some ''true'')
                 \<and> penv ''NODE_ENV'' \<noteq> Some ''test''))
   \<and> (RedisCache_new r penv = Inr rc
        \<longrightarrow> RedisCache.redisUrl rc
              = first_given [RedisConfig.redisUrl r, penv ''REDIS_URL''] ''redis://localhost:6379''
          \<and> RedisCache.defaultTTL rc = supplied_else (RedisConfig.defaultTTL r) 3600
          \<and> RedisCache.keyPrefix rc = supplied_else (RedisConfig.keyPrefix r) ''rr:''
          \<and> RedisCache.logger rc = supplied_else (RedisConfig.logger r) consoleLogger)
   \<and> (createOpenAPIMiddleware oa penv = (ocalls, Inr vo)
        \<longrightarrow> ValidatorOptions.validateRequests vo
              = supplied_else (OpenAPIConfig.validateRequests oa) True
          \<and> ValidatorOptions.validateResponses vo
              = supplied_else (OpenAPIConfig.validateResponses oa)
                  (penv ''NODE_ENV'' = Some ''development'')
          \<and> ValidatorOptions.ignorePaths vo
              = (if supplied_else (OpenAPIConfig.ignorePaths oa) [] = [] then None
                 else Some (''^('' @ join ''|'' (map ignore_source
                              (supplied_else (OpenAPIConfig.ignorePaths oa) [])) @ '')''))
          \<and> ocalls = [LoggerInfo (supplied_else (OpenAPIConfig.logger oa) consoleLogger)
                         ''Initializing OpenAPI validator'',
                       ValidatorMiddleware vo])"
proof (intro conjI impI)
  assume a: "KafkaConsumer_new k = (kcalls, Inr kc)"
  show "kcalls =
        [NewKafka \<lparr> KafkaClientOptions.clientId =
                      first_given [KafkaConfig.clientId k] (the (KafkaConfig.serviceName k)),
                    KafkaClientOptions.brokers = the (KafkaConfig.brokers k),
                    KafkaClientOptions.ssl = supplied_else (KafkaConfig.ssl k) True,
                    KafkaClientOptions.mechanism
                      = first_given [KafkaConfig.saslMechanism k] ''plain'',
                    KafkaClientOptions.username = the (KafkaConfig.username k),
                    KafkaClientOptions.password = the (KafkaConfig.password k) \<rparr>,
         NewConsumer \<lparr> ConsumerOptions.groupId = the (KafkaConfig.groupId k),
                       ConsumerOptions.sessionTimeout
                         = supplied_else (KafkaConfig.sessionTimeout k) 30000,
                       ConsumerOptions.heartbeatInterval
                         = supplied_else (KafkaConfig.heartbeatInterval k) 3000 \<rparr>]"
    by (rule kafka_resolved(1) [OF a])
  show "KafkaConsumer.logger kc = supplied_else (KafkaConfig.logger k) consoleLogger"
    by (rule kafka_resolved(2) [OF a])
next
  assume a: "PostgresClient_new pg penv = (pcalls, Inr pc)"
  show "pcalls = [NewPool (poolConfig pg penv), PoolOn ''error'', PoolOn ''connect'']"
    by (rule postgres_client_resolved(1) [OF a])
  show "PostgresClient.logger pc = supplied_else (PostgresConfig.logger pg) consoleLogger"
    by (rule postgres_client_resolved(2) [OF a])
next
  show "PoolConfig.host (poolConfig pg penv)
     = first_given [PostgresConfig.host pg, penv ''PGHOST''] ''localhost''"
    by (rule poolConfig_strings(1))
  show "PoolConfig.database (poolConfig pg penv)
     = first_given [PostgresConfig.database pg, penv ''PGDATABASE''] ''railrepay''"
    by (rule poolConfig_strings(2))
  show "PoolConfig.user (poolConfig pg penv)
     = first_given [PostgresConfig.user pg, penv ''PGUSER''] ''postgres''"
    by (rule poolConfig_strings(3))
  show "PoolConfig.password (poolConfig pg penv)
     = first_given [PostgresConfig.password pg, penv ''PGPASSWORD''] ''postgres''"
    by (rule poolConfig_strings(4))
  show "PoolConfig.ssl (poolConfig pg penv)
     = supplied_else (PostgresConfig.ssl pg) (penv ''PGSSLMODE'' = Some ''require'')"
    by (rule poolConfig_others(1))
  show "PoolConfig.max (poolConfig pg penv) = supplied_else (PostgresConfig.poolSize pg) 20"
    by (rule poolConfig_others(2))
  show "PoolConfig.idleTimeoutMillis (poolConfig pg penv)
     = supplied_else (PostgresConfig.idleTimeout pg) 30000"
    by (rule poolConfig_others(3))
  show "PoolConfig.connectionTimeoutMillis (poolConfig pg penv)
     = supplied_else (PostgresConfig.connectionTimeout pg) 5000"
    by (rule poolConfig_others(4))
next
  assume "PostgresConfig.port pg = Some n \<and> n \<noteq> 0"
  then show "PoolConfig.port (poolConfig pg penv) = Number (of_int n)"
    using poolConfig_port(1) [where pg = pg and penv = penv and n = n] by simp
next
  assume "PostgresConfig.port pg = None \<or> PostgresConfig.port pg = Some 0"
  then show "PoolConfig.port (poolConfig pg penv)
            = parseInt10 (first_given [penv ''PGPORT''] ''5432'')"
    by (rule poolConfig_port(2))
next
  assume a: "MetricsPusher_new m penv = Inr p"
  show "MetricsPusher.alloyUrl p
              = first_given [MetricsConfig.alloyUrl m, penv ''ALLOY_PUSH_URL''] []"
    by (rule pusher_resolved(1) [OF a])
  show "MetricsPusher.environment p
              = first_given [MetricsConfig.environment m, penv ''NODE_ENV''] ''development''"
    by (rule pusher_resolved(2) [OF a])
  show "MetricsPusher.pushIntervalMs p
              = supplied_else (MetricsConfig.pushInterval m) 15 * 1000"
    by (rule pusher_resolved_others(1) [OF a])
  show "MetricsPusher.logger p = supplied_else (MetricsConfig.logger m) consoleLogger"
    by (rule pusher_resolved_others(2) [OF a])
next
  assume a: "createLogger l penv loki = (lcalls, Inr lg)"
  then have b: "snd (createLogger l penv loki) = Inr lg"
    by simp
  show "Logger.level lg
              = supplied_else (LoggerConfig.level l) (first_given [penv ''LOG_LEVEL''] ''info'')"
    using logger_resolved(1) [OF b] by (cases "LoggerConfig.level l") simp_all
  show "Logger.environment lg
              = supplied_else (LoggerConfig.environment l)
                  (first_given [penv ''ENVIRONMENT'', penv ''NODE_ENV''] ''development'')"
    using logger_resolved(2) [OF b] by (cases "LoggerConfig.environment l") simp_all
  show "\<forall>opts. NewLokiTransport opts \<in> set lcalls \<longrightarrow>
                LokiOptions.host opts
                  = supplied_else (LoggerConfig.lokiHost l)
                      (first_given [penv ''LOKI_HOST''] ''http://localhost:3100'')
                \<and> LokiOptions.basicAuth opts
                  = (case LoggerConfig.lokiBasicAuth l of Some a \<Rightarrow> Some a
                     | None \<Rightarrow> penv ''LOKI_BASIC_AUTH'')"
    by (rule logger_loki_resolved(1) [OF a])
  show "(\<exists>opts. NewLokiTransport opts \<in> set lcalls)
              = (supplied_else (LoggerConfig.lokiEnabled l) (penv ''LOKI_ENABLED'' = Some ''true'')
                 \<and> penv ''NODE_ENV'' \<noteq> Some ''test'')"
    by (rule logger_loki_resolved(2) [OF a])
next
  assume a: "RedisCache_new r penv = Inr rc"
  show "RedisCache.redisUrl rc
              = first_given [RedisConfig.redisUrl r, penv ''REDIS_URL''] ''redis://localhost:6379''"
    by (rule redis_resolved [OF a])
  show "RedisCache.defaultTTL rc = supplied_else (RedisConfig.defaultTTL r) 3600"
    by (rule redis_resolved_others(1) [OF a])
  show "RedisCache.keyPrefix rc = supplied_else (RedisConfig.keyPrefix r) ''rr:''"
    by (rule redis_resolved_others(2) [OF a])
  show "RedisCache.logger rc = supplied_else (RedisConfig.logger r) consoleLogger"
    by (rule redis_resolved_others(3) [OF a])
next
  assume a: "createOpenAPIMiddleware oa penv = (ocalls, Inr vo)"
  show "ValidatorOptions.validateRequests vo
              = supplied_else (OpenAPIConfig.validateRequests oa) True"
    by (rule openapi_resolved(1) [OF a])
  show "ValidatorOptions.validateResponses vo
              = supplied_else (OpenAPIConfig.validateResponses oa)
                  (penv ''NODE_ENV'' = Some ''development'')"
    by (rule openapi_resolved(2) [OF a])
  show "ValidatorOptions.ignorePaths vo
              = (if supplied_else (OpenAPIConfig.ignorePaths oa) [] = [] then None
                 else Some (''^('' @ join ''|'' (map ignore_source
                              (supplied_else (OpenAPIConfig.ignorePaths oa) [])) @ '')''))"
    by (rule openapi_resolved(3) [OF a])
  show "ocalls = [LoggerInfo (supplied_else (OpenAPIConfig.logger oa) consoleLogger)
                         ''Initializing OpenAPI validator'',
                       ValidatorMiddleware vo]"
    by (rule openapi_resolved(4) [OF a])
qed

text \<open>
  The theorem at one environment and one configuration of each component. The Kafka
  configuration supplies \<open>ssl: false\<close> and a session timeout; the Postgres one the host
  and the port, the user and the port being also in the environment; the logger's
  supplies its environment and turns Loki on; the validator's turns request validation
  off. A second Postgres configuration supplies no port.
\<close>

definition env_w :: env where
  "env_w = env_of [(''PGUSER'', ''app''), (''PGPORT'', ''5433''), (''PGSSLMODE'', ''require''),
                   (''ALLOY_PUSH_URL'', ''http://alloy:9091''), (''LOG_LEVEL'', ''warn''),
                   (''NODE_ENV'', ''production''), (''REDIS_URL'', ''redis://cache:6379'')]"

definition k_w :: KafkaConfig where
  "k_w = kafka_no_group \<lparr> KafkaConfig.groupId := Some ''grp'',
                          KafkaConfig.ssl := Some False,
                          KafkaConfig.sessionTimeout := Some 45000 \<rparr>"

definition pg_w :: PostgresConfig where
  "pg_w = postgres_empty \<lparr> PostgresConfig.serviceName := Some ''svc'',
                           PostgresConfig.schemaName := Some ''svc_schema'',
                           PostgresConfig.host := Some ''db.internal'',
                           PostgresConfig.port := Some 6543 \<rparr>"

definition m_w :: MetricsConfig where
  "m_w = metrics_empty \<lparr> MetricsConfig.serviceName := Some ''svc'' \<rparr>"

definition l_w :: LoggerConfig where
  "l_w = logger_empty \<lparr> LoggerConfig.serviceName := Some ''svc'',
                         LoggerConfig.lokiEnabled := Some True,
                         LoggerConfig.environment := Some ''staging'' \<rparr>"

definition oa_w :: OpenAPIConfig where
  "oa_w = openapi_empty \<lparr> OpenAPIConfig.schemaPath := Some ''./openapi.yaml'',
                           OpenAPIConfig.validateRequests := Some False,
                           OpenAPIConfig.logger := Some (injected ''winston'') \<rparr>"

definition kafka_options_w :: KafkaClientOptions where
  "kafka_options_w = \<lparr> KafkaClientOptions.clientId = ''svc'',
                        KafkaClientOptions.brokers = [''kafka:9092''],
                        KafkaClientOptions.ssl = False,
                        KafkaClientOptions.mechanism = ''plain'',
                        KafkaClientOptions.username = ''user'',
                        KafkaClientOptions.password = ''pass'' \<rparr>"

definition consumer_options_w :: ConsumerOptions where
  "consumer_options_w = \<lparr> ConsumerOptions.groupId = ''grp'',
                           ConsumerOptions.sessionTimeout = 45000,
                           ConsumerOptions.heartbeatInterval = 3000 \<rparr>"

definition pool_w :: PoolConfig where
  "pool_w = \<lparr> PoolConfig.host = ''db.internal'', PoolConfig.port = Number 6543,
               PoolConfig.database = ''railrepay'', PoolConfig.user = ''app'',
               PoolConfig.password = ''postgres'', PoolConfig.ssl = True, PoolConfig.max = 20,
               PoolConfig.idleTimeoutMillis = 30000, PoolConfig.connectionTimeoutMillis = 5000,
               PoolConfig.options = ''-c search_path=svc_schema,public'' \<rparr>"

definition loki_options_w :: LokiOptions where
  "loki_options_w = \<lparr> LokiOptions.host = ''http://localhost:3100'', LokiOptions.basicAuth = None,
                       LokiOptions.app = ''svc'', LokiOptions.environment = ''staging'' \<rparr>"

definition validator_options_w :: ValidatorOptions where
  "validator_options_w = \<lparr> ValidatorOptions.apiSpec = ''./openapi.yaml'',
                            ValidatorOptions.validateRequests = False,
                            ValidatorOptions.validateResponses = False,
                            ValidatorOptions.ignorePaths = None \<rparr>"

lemma kafka_w_built:
  "KafkaConsumer_new k_w
     = ([NewKafka kafka_options_w, NewConsumer consumer_options_w],
        Inr \<lparr> KafkaConsumer.config = k_w, KafkaConsumer.logger = consoleLogger,
              KafkaConsumer.isRunning = False,
              KafkaConsumer.stats = \<lparr> processedCount = 0, errorCount = 0,
                                      lastProcessedAt = None, ConsumerStats.isRunning = False \<rparr> \<rparr>)"
  by (simp add: KafkaConsumer_new_def k_w_def kafka_no_group_def kafka_empty_def
        kafka_options_w_def consumer_options_w_def or_lit_def truthy_str_def nullish_def Let_def)

lemma pool_w_built: "poolConfig pg_w env_w = pool_w"
  by (simp add: poolConfig_def pg_w_def postgres_empty_def env_w_def env_of_def pool_w_def
        or_lit_def or_str_def truthy_str_def nullish_def or_port_def template_def)


lemma pool_env_port: "PoolConfig.port (poolConfig postgres_empty env_w) = Number 5433"
  by (simp add: poolConfig_def postgres_empty_def env_w_def env_of_def or_lit_def truthy_str_def
        or_port_def parseInt10_def is_space_def is_digit_def digits_val_def digit_val_def Let_def)

lemma postgres_w_built:
  "PostgresClient_new pg_w env_w
     = ([NewPool pool_w, PoolOn ''error'', PoolOn ''connect''],
        Inr \<lparr> PostgresClient.config = pg_w, PostgresClient.logger = consoleLogger,
              PostgresClient.pool = pool_w, PostgresClient.connected = False \<rparr>)"
  unfolding PostgresClient_new_def pool_w_built
  by (simp add: pg_w_def postgres_empty_def truthy_str_def)

lemma pusher_w_built:
  "MetricsPusher_new m_w env_w
     = Inr \<lparr> MetricsPusher.intervalId = None, MetricsPusher.pushIntervalMs = 15000,
             MetricsPusher.alloyUrl = ''http://alloy:9091'', MetricsPusher.serviceName = ''svc'',
             MetricsPusher.environment = ''production'', MetricsPusher.isRunning = False,
             MetricsPusher.logger = consoleLogger \<rparr>"
  by (simp add: MetricsPusher_new_def m_w_def metrics_empty_def env_w_def env_of_def or_lit_def
        or_str_def truthy_str_def nullish_def)

lemma logger_w_built:
  "createLogger l_w env_w (\<lambda>_. None)
     = ([NewLokiTransport loki_options_w],
        Inr \<lparr> Logger.level = ''warn'', Logger.app = ''svc'', Logger.environment = ''staging'',
              Logger.transports = [Console ''warn'', Loki loki_options_w] \<rparr>)"
  by (simp add: createLogger_def l_w_def logger_empty_def env_w_def env_of_def loki_options_w_def
        or_lit_def or_str_def truthy_str_def nullish_def Let_def)

lemma redis_w_built:
  "RedisCache_new redis_cfg env_w
     = Inr \<lparr> RedisCache.serviceName = ''svc'', RedisCache.redisUrl = ''redis://cache:6379'',
             RedisCache.defaultTTL = 3600, RedisCache.keyPrefix = ''rr:'',
             RedisCache.logger = consoleLogger, RedisCache.connected = False \<rparr>"
  by (simp add: RedisCache_new_def redis_cfg_def env_w_def env_of_def or_lit_def or_str_def
        truthy_str_def nullish_def)

lemma openapi_w_built:
  "createOpenAPIMiddleware oa_w env_w
     = ([LoggerInfo (injected ''winston'') ''Initializing OpenAPI validator'',
         ValidatorMiddleware validator_options_w],
        Inr validator_options_w)"
  by (simp add: createOpenAPIMiddleware_def oa_w_def openapi_empty_def env_w_def env_of_def
        validator_options_w_def truthy_str_def nullish_def Let_def)



theorem optional_fields_precedence_witness:
  "KafkaConsumer_new k_w
     = ([NewKafka kafka_options_w, NewConsumer consumer_options_w],
        Inr \<lparr> KafkaConsumer.config = k_w, KafkaConsumer.logger = consoleLogger,
              KafkaConsumer.isRunning = False,
              KafkaConsumer.stats = \<lparr> processedCount = 0, errorCount = 0,
                                      lastProcessedAt = None, ConsumerStats.isRunning = False \<rparr> \<rparr>)
   \<and> KafkaClientOptions.ssl kafka_options_w = False
   \<and> KafkaClientOptions.clientId kafka_options_w = ''svc''
   \<and> ConsumerOptions.sessionTimeout consumer_options_w = 45000
   \<and> ConsumerOptions.heartbeatInterval consumer_options_w = 3000
   \<and> fst (PostgresClient_new pg_w env_w) = [NewPool pool_w, PoolOn ''error'', PoolOn ''connect'']
   \<and> poolConfig pg_w env_w = pool_w
   \<and> PoolConfig.host pool_w = ''db.internal''
   \<and> PoolConfig.user pool_w = ''app''
   \<and> PoolConfig.database pool_w = ''railrepay''
   \<and> PostgresConfig.port pg_w = Some 6543
   \<and> PoolConfig.port pool_w = Number 6543
   \<and> PoolConfig.ssl pool_w = True
   \<and> PoolConfig.max pool_w = 20
   \<and> PostgresConfig.port postgres_empty = None
   \<and> PoolConfig.port (poolConfig postgres_empty env_w) = Number 5433
   \<and> map_sum id MetricsPusher.alloyUrl (MetricsPusher_new m_w env_w) = Inr ''http://alloy:9091''
   \<and> map_sum id MetricsPusher.environment (MetricsPusher_new m_w env_w) = Inr ''production''
   \<and> map_sum id MetricsPusher.pushIntervalMs (MetricsPusher_new m_w env_w) = Inr 15000
   \<and> fst (createLogger l_w env_w (\<lambda>_. None)) = [NewLokiTransport loki_options_w]
   \<and> LokiOptions.host loki_options_w = ''http://localhost:3100''
   \<and> LokiOptions.basicAuth loki_options_w = None
   \<and> map_sum id Logger.level (snd (createLogger l_w env_w (\<lambda>_. None))) = Inr ''warn''
   \<and> map_sum id Logger.environment (snd (createLogger l_w env_w (\<lambda>_. None))) = Inr ''staging''
   \<and> map_sum id RedisCache.redisUrl (RedisCache_new redis_cfg env_w) = Inr ''redis://cache:6379''
   \<and> map_sum id RedisCache.defaultTTL (RedisCache_new redis_cfg env_w) = Inr 3600
   \<and> map_sum id RedisCache.keyPrefix (RedisCache_new redis_cfg env_w) = Inr ''rr:''
   \<and> createOpenAPIMiddleware oa_w env_w
       = ([LoggerInfo (injected ''winston'') ''Initializing OpenAPI validator'',
           ValidatorMiddleware validator_options_w],
          Inr validator_options_w)
   \<and> ValidatorOptions.validateRequests validator_options_w = False
   \<and> ValidatorOptions.validateResponses validator_options_w = False"
proof -
  note t1 = optional_fields_precedence
          [where k = k_w and kcalls = "fst (KafkaConsumer_new k_w)"
             and kc = "projr (snd (KafkaConsumer_new k_w))"
             and pg = pg_w and penv = env_w and n = 6543
             and pcalls = "fst (PostgresClient_new pg_w env_w)"
             and pc = "projr (snd (PostgresClient_new pg_w env_w))"
             and m = m_w and p = "projr (MetricsPusher_new m_w env_w)"
             and l = l_w and loki = "\<lambda>_. None"
             and lcalls = "fst (createLogger l_w env_w (\<lambda>_. None))"
             and lg = "projr (snd (createLogger l_w env_w (\<lambda>_. None)))"
             and r = redis_cfg and rc = "projr (RedisCache_new redis_cfg env_w)"
             and oa = oa_w and ocalls = "fst (createOpenAPIMiddleware oa_w env_w)"
             and vo = "projr (snd (createOpenAPIMiddleware oa_w env_w))"]
  note t2 = t1 [THEN conjunct2]
  note t3 = t2 [THEN conjunct2]
  note t4 = t3 [THEN conjunct2]
  note t5 = t4 [THEN conjunct2]
  note t6 = t5 [THEN conjunct2]
  note t7 = t6 [THEN conjunct2]
  note t8 = t7 [THEN conjunct2]
  note t9 = t8 [THEN conjunct2]
  note t10 = t9 [THEN conjunct2]
  note t11 = t10 [THEN conjunct2]
  note t12 = t11 [THEN conjunct2]
  note t13 = t12 [THEN conjunct2]
  note t14 = t13 [THEN conjunct2]
  note t15 = t14 [THEN conjunct2]
  note t16 = t15 [THEN conjunct2]
  note u8 = optional_fields_precedence
          [where pg = postgres_empty and penv = env_w,
           THEN conjunct2, THEN conjunct2, THEN conjunct2, THEN conjunct2, THEN conjunct2,
           THEN conjunct2, THEN conjunct2, THEN conjunct1, THEN mp]
  have hk: "KafkaConsumer_new k_w
              = (fst (KafkaConsumer_new k_w), Inr (projr (snd (KafkaConsumer_new k_w))))"
    unfolding kafka_w_built by simp
  have hp: "PostgresClient_new pg_w env_w
              = (fst (PostgresClient_new pg_w env_w), Inr (projr (snd (PostgresClient_new pg_w env_w))))"
    unfolding postgres_w_built by simp
  have hport: "PostgresConfig.port pg_w = Some 6543 \<and> (6543::int) \<noteq> 0"
    by (simp add: pg_w_def postgres_empty_def)
  have hnoport: "PostgresConfig.port postgres_empty = None \<or> PostgresConfig.port postgres_empty = Some 0"
    by (simp add: postgres_empty_def)
  have hm: "MetricsPusher_new m_w env_w = Inr (projr (MetricsPusher_new m_w env_w))"
    unfolding pusher_w_built by simp
  have hl: "createLogger l_w env_w (\<lambda>_. None)
              = (fst (createLogger l_w env_w (\<lambda>_. None)),
                 Inr (projr (snd (createLogger l_w env_w (\<lambda>_. None)))))"
    unfolding logger_w_built by simp
  have hr: "RedisCache_new redis_cfg env_w = Inr (projr (RedisCache_new redis_cfg env_w))"
    unfolding redis_w_built by simp
  have ho: "createOpenAPIMiddleware oa_w env_w
              = (fst (createOpenAPIMiddleware oa_w env_w),
                 Inr (projr (snd (createOpenAPIMiddleware oa_w env_w))))"
    unfolding openapi_w_built by simp
  have ck: "fst (KafkaConsumer_new k_w) = [NewKafka kafka_options_w, NewConsumer consumer_options_w]"
    using t1 [THEN conjunct1, THEN mp, OF hk, THEN conjunct1]
    by (simp add: k_w_def kafka_no_group_def kafka_empty_def kafka_options_w_def
          consumer_options_w_def)
  have cp: "fst (PostgresClient_new pg_w env_w) = [NewPool pool_w, PoolOn ''error'', PoolOn ''connect'']"
    using t2 [THEN conjunct1, THEN mp, OF hp, THEN conjunct1] unfolding pool_w_built .
  have chost: "PoolConfig.host (poolConfig pg_w env_w) = ''db.internal''"
    using t3 [THEN conjunct1] by (simp add: pg_w_def postgres_empty_def)
  have cdb: "PoolConfig.database (poolConfig pg_w env_w) = ''railrepay''"
    using t4 [THEN conjunct1] by (simp add: pg_w_def postgres_empty_def env_w_def env_of_def)
  have cuser: "PoolConfig.user (poolConfig pg_w env_w) = ''app''"
    using t5 [THEN conjunct1] by (simp add: pg_w_def postgres_empty_def env_w_def env_of_def)
  have cport: "PoolConfig.port (poolConfig pg_w env_w) = Number 6543"
    using t7 [THEN conjunct1, THEN mp, OF hport] by simp
  have cenvport: "PoolConfig.port (poolConfig postgres_empty env_w) = Number 5433"
    using u8 [OF hnoport]
    by (simp add: env_w_def env_of_def parseInt10_def is_space_def is_digit_def digits_val_def
          digit_val_def Let_def)
  have cssl: "PoolConfig.ssl (poolConfig pg_w env_w) = True"
    using t9 [THEN conjunct1] by (simp add: pg_w_def postgres_empty_def env_w_def env_of_def)
  have cmax: "PoolConfig.max (poolConfig pg_w env_w) = 20"
    using t10 [THEN conjunct1] by (simp add: pg_w_def postgres_empty_def)
  have cm: "MetricsPusher.alloyUrl (projr (MetricsPusher_new m_w env_w)) = ''http://alloy:9091''
      \<and> MetricsPusher.environment (projr (MetricsPusher_new m_w env_w)) = ''production''
      \<and> MetricsPusher.pushIntervalMs (projr (MetricsPusher_new m_w env_w)) = 15000"
    using t13 [THEN conjunct1, THEN mp, OF hm]
    by (simp add: m_w_def metrics_empty_def env_w_def env_of_def)
  have cl: "Logger.level (projr (snd (createLogger l_w env_w (\<lambda>_. None)))) = ''warn''
      \<and> Logger.environment (projr (snd (createLogger l_w env_w (\<lambda>_. None)))) = ''staging''"
    using t14 [THEN conjunct1, THEN mp, OF hl]
    by (simp add: l_w_def logger_empty_def env_w_def env_of_def)
  have cr: "RedisCache.redisUrl (projr (RedisCache_new redis_cfg env_w)) = ''redis://cache:6379''
      \<and> RedisCache.defaultTTL (projr (RedisCache_new redis_cfg env_w)) = 3600
      \<and> RedisCache.keyPrefix (projr (RedisCache_new redis_cfg env_w)) = ''rr:''"
    using t15 [THEN conjunct1, THEN mp, OF hr]
    by (simp add: redis_cfg_def env_w_def env_of_def)
  have cloki: "\<forall>opts. NewLokiTransport opts \<in> set (fst (createLogger l_w env_w (\<lambda>_. None))) \<longrightarrow>
                 LokiOptions.host opts = ''http://localhost:3100''
                 \<and> LokiOptions.basicAuth opts = None"
    using t14 [THEN conjunct1, THEN mp, OF hl]
    by (simp add: l_w_def logger_empty_def env_w_def env_of_def)
  have co: "ValidatorOptions.validateRequests (projr (snd (createOpenAPIMiddleware oa_w env_w))) = False
      \<and> ValidatorOptions.validateResponses (projr (snd (createOpenAPIMiddleware oa_w env_w))) = False
      \<and> fst (createOpenAPIMiddleware oa_w env_w)
          = [LoggerInfo (injected ''winston'') ''Initializing OpenAPI validator'',
             ValidatorMiddleware (projr (snd (createOpenAPIMiddleware oa_w env_w)))]"
    using t16 [THEN mp, OF ho]
    by (simp add: oa_w_def openapi_empty_def env_w_def env_of_def)
  show ?thesis
    using ck cp chost cdb cuser cport cenvport cssl cmax cm cl cr cloki co
    unfolding kafka_w_built postgres_w_built pool_w_built pusher_w_built
      logger_w_built redis_w_built openapi_w_built
    by (simp add: kafka_options_w_def consumer_options_w_def pool_w_def loki_options_w_def
          validator_options_w_def pg_w_def postgres_empty_def)
qed

text \<open>
  A source that is there is not always used. Three inputs, each against the order in
  the spec's words (\<open>first_present\<close>, or the supplied value itself):

  \<^item> the pusher is given the empty string as its Alloy URL, the explicit way to leave
    pushing off, while \<open>ALLOY_PUSH_URL\<close> is set: the environment's URL wins;
  \<^item> \<open>PGHOST\<close> is set to the empty string and the configuration gives no host: the host
    is the default \<open>localhost\<close>, not the variable's value;
  \<^item> the Postgres port is supplied as 0 while \<open>PGPORT\<close> is 5433: the port is 5433;
  \<^item> \<open>LOG_LEVEL\<close> is set to the empty string and the configuration gives no level:
    the logger's level is the default \<open>info\<close>.
\<close>

definition m_x :: MetricsConfig where
  "m_x = metrics_empty \<lparr> MetricsConfig.serviceName := Some ''svc'',
                         MetricsConfig.alloyUrl := Some [] \<rparr>"

definition pg_x :: PostgresConfig where
  "pg_x = postgres_empty \<lparr> PostgresConfig.serviceName := Some ''svc'',
                           PostgresConfig.schemaName := Some ''svc_schema'',
                           PostgresConfig.port := Some 0 \<rparr>"

definition env_x :: env where
  "env_x = env_of [(''PGHOST'', []), (''PGPORT'', ''5433''), (''LOG_LEVEL'', [])]"

definition l_x :: LoggerConfig where
  "l_x = logger_empty \<lparr> LoggerConfig.serviceName := Some ''svc'' \<rparr>"

theorem explicit_empty_value_not_used:
  "MetricsConfig.alloyUrl m_x = Some []
   \<and> map_sum id MetricsPusher.alloyUrl
        (MetricsPusher_new m_x (env_of [(''ALLOY_PUSH_URL'', ''http://alloy:9091'')]))
       = Inr ''http://alloy:9091''
   \<and> first_present [MetricsConfig.alloyUrl m_x,
                     env_of [(''ALLOY_PUSH_URL'', ''http://alloy:9091'')] ''ALLOY_PUSH_URL''] []
       = []
   \<and> PostgresConfig.host pg_x = None
   \<and> env_x ''PGHOST'' = Some []
   \<and> map_sum id (PoolConfig.host \<circ> PostgresClient.pool) (snd (PostgresClient_new pg_x env_x))
       = Inr ''localhost''
   \<and> first_present [PostgresConfig.host pg_x, env_x ''PGHOST''] ''localhost'' = []
   \<and> PostgresConfig.port pg_x = Some 0
   \<and> map_sum id (PoolConfig.port \<circ> PostgresClient.pool) (snd (PostgresClient_new pg_x env_x))
       = Inr (Number 5433)
   \<and> LoggerConfig.level l_x = None
   \<and> env_x ''LOG_LEVEL'' = Some []
   \<and> map_sum id Logger.level (snd (createLogger l_x env_x (\<lambda>_. None))) = Inr ''info''
   \<and> first_present [LoggerConfig.level l_x, env_x ''LOG_LEVEL''] ''info'' = []"
  by (simp add: m_x_def metrics_empty_def MetricsPusher_new_def env_of_def or_lit_def or_str_def
        truthy_str_def nullish_def pg_x_def postgres_empty_def env_x_def PostgresClient_new_def
        poolConfig_def or_port_def parseInt10_def is_space_def is_digit_def digits_val_def
        digit_val_def Let_def l_x_def logger_empty_def createLogger_def)

section \<open>Untyped values\<close>

text \<open>
  Where the code takes \<open>any\<close> (the error given to an Express error handler) or a generic
  \<open>T\<close> (a row of a query), a value is one of JavaScript's: \<open>undefined\<close>, \<open>null\<close>, a
  boolean, a number (an integer or \<open>NaN\<close> here), a string, an array or an object, which
  is its list of own properties. Functions are not values of the model.
\<close>

datatype jsval =
    JUndefined
  | JNull
  | JBool bool
  | JNum int
  | JNaN
  | JStr string
  | JArr "jsval list"
  | JObj "(string \<times> jsval) list"

fun truthy :: "jsval \<Rightarrow> bool" where
  "truthy JUndefined = False"
| "truthy JNull = False"
| "truthy (JBool b) = b"
| "truthy (JNum n) = (n \<noteq> 0)"
| "truthy JNaN = False"
| "truthy (JStr s) = (s \<noteq> [])"
| "truthy (JArr _) = True"
| "truthy (JObj _) = True"

definition js_or :: "jsval \<Rightarrow> jsval \<Rightarrow> jsval" where
  "js_or a b = (if truthy a then a else b)"

text \<open>
  \<open>v.k\<close> for a \<open>v\<close> that is neither \<open>undefined\<close> nor \<open>null\<close>, and a name \<open>k\<close> that
  no prototype defines (the code reads \<open>status\<close>, \<open>errors\<close>, \<open>message\<close>, \<open>path\<close>
  and \<open>errorCode\<close>): the own property, or \<open>undefined\<close>.
\<close>

fun property :: "jsval \<Rightarrow> string \<Rightarrow> jsval" where
  "property (JObj ps) k = (case map_of ps k of Some v \<Rightarrow> v | None \<Rightarrow> JUndefined)"
| "property _ k = JUndefined"

definition nullish_val :: "jsval \<Rightarrow> bool" where
  "nullish_val v = (v = JUndefined \<or> v = JNull)"

text \<open>\<open>xs[i]\<close>: out of range, an array gives \<open>undefined\<close>.\<close>

definition index :: "jsval list \<Rightarrow> nat \<Rightarrow> jsval" where
  "index xs i = (if i < length xs then xs ! i else JUndefined)"

section \<open>postgres-client: query and queryOne\<close>

text \<open>
  \<open>client.ts\<close>. What the pool answers to a statement and its parameters is an input,
  \<open>pool_query\<close>: a result with its rows, or a rejection. Each function returns the log
  lines it wrote and its own result.
\<close>

record QueryResult =
  rows :: "jsval list"
  rowCount :: "int option"

type_synonym pool_query = "string \<Rightarrow> jsval list option \<Rightarrow> thrown + QueryResult"

definition query :: "pool_query \<Rightarrow> string \<Rightarrow> jsval list option \<Rightarrow> log_entry list \<times> (thrown + jsval list)" where
  "query pool_query sql params =
     (case pool_query sql params of
        Inr result \<Rightarrow> ([(LDebug, ''Executed query'')], Inr (rows result))
      | Inl error \<Rightarrow> ([(LError, ''Database query error'')], Inl error))"

definition queryOne :: "pool_query \<Rightarrow> string \<Rightarrow> jsval list option \<Rightarrow> log_entry list \<times> (thrown + jsval)" where
  "queryOne pool_query sql params =
     (let (logs, r) = query pool_query sql params
      in (logs, case r of Inl error \<Rightarrow> Inl error
                | Inr found \<Rightarrow> Inr (js_or (index found 0) JNull)))"

text \<open>A row, as the driver hands it over: an object, or an array in array row mode.\<close>

fun is_row :: "jsval \<Rightarrow> bool" where
  "is_row (JObj _) = True"
| "is_row (JArr _) = True"
| "is_row _ = False"

lemma is_row_truthy: "is_row r \<Longrightarrow> truthy r"
  by (cases r) simp_all

lemma queryOne_rows:
  assumes "pool_query sql params = Inr result"
  shows "snd (queryOne pool_query sql params) = Inr (js_or (index (rows result) 0) JNull)"
  using assms by (simp add: queryOne_def query_def)

text \<open>
  C7. Whatever the statement and its parameters, when the pool answers with no row
  \<open>queryOne\<close> resolves to \<open>null\<close> (it does not throw), and when it answers with at
  least one row \<open>queryOne\<close> resolves to the first.
\<close>

theorem queryOne_first_row_or_null:
  "(pool_query sql params = Inr result \<and> rows result = []
      \<longrightarrow> snd (queryOne pool_query sql params) = Inr JNull)
   \<and> (pool_query sql params = Inr result \<and> rows result = r # rs \<and> is_row r
      \<longrightarrow> snd (queryOne pool_query sql params) = Inr r)"
proof (intro conjI impI)
  assume "pool_query sql params = Inr result \<and> rows result = []"
  then show "snd (queryOne pool_query sql params) = Inr JNull"
    by (simp add: queryOne_rows index_def js_or_def)
next
  assume a: "pool_query sql params = Inr result \<and> rows result = r # rs \<and> is_row r"
  then have "truthy r" by (simp add: is_row_truthy)
  with a show "snd (queryOne pool_query sql params) = Inr r"
    by (simp add: queryOne_rows index_def js_or_def)
qed

theorem queryOne_first_row_or_null_witness:
  "snd (queryOne (\<lambda>_ _. Inr \<lparr> rows = [], rowCount = Some 0 \<rparr>)
          ''SELECT * FROM users WHERE id = $1'' (Some [JNum 7])) = Inr JNull
   \<and> is_row (JObj [(''id'', JNum 7)])
   \<and> snd (queryOne (\<lambda>_ _. Inr \<lparr> rows = [JObj [(''id'', JNum 7)], JObj [(''id'', JNum 8)]],
                                  rowCount = Some 2 \<rparr>)
          ''SELECT * FROM users'' None) = Inr (JObj [(''id'', JNum 7)])"
  using queryOne_first_row_or_null
          [where pool_query = "\<lambda>_ _. Inr \<lparr> rows = [], rowCount = Some 0 \<rparr>"
             and sql = "''SELECT * FROM users WHERE id = $1''" and params = "Some [JNum 7]"
             and result = "\<lparr> rows = [], rowCount = Some 0 \<rparr>"]
        queryOne_first_row_or_null
          [where pool_query = "\<lambda>_ _. Inr \<lparr> rows = [JObj [(''id'', JNum 7)], JObj [(''id'', JNum 8)]],
                                           rowCount = Some 2 \<rparr>"
             and sql = "''SELECT * FROM users''" and params = None
             and result = "\<lparr> rows = [JObj [(''id'', JNum 7)], JObj [(''id'', JNum 8)]],
                                rowCount = Some 2 \<rparr>"
             and r = "JObj [(''id'', JNum 7)]" and rs = "[JObj [(''id'', JNum 8)]]"]
  by simp

section \<open>openapi-validator: the error handler\<close>

text \<open>
  \<open>middleware.ts\<close>, \<open>createOpenAPIErrorHandler\<close>. The handler ends in one of three ways:
  it answers (\<open>res.status(s).json(body)\<close>), it passes the error on (\<open>next(err)\<close>), or a
  \<open>TypeError\<close> leaves it. The test \<open>err.status && err.errors\<close> reads \<open>err.errors\<close>
  only when \<open>err.status\<close> is truthy, and the warning is written before the body is built.
\<close>

datatype handled = Responded jsval jsval | Forwarded jsval | Threw thrown

definition format_error :: "jsval \<Rightarrow> thrown + jsval" where
  "format_error e =
     (if nullish_val e then Inl (TypeError ''Cannot read properties of undefined (reading 'path')'')
      else Inr (JObj [(''path'', property e ''path''),
                      (''message'', property e ''message''),
                      (''errorCode'', js_or (property e ''errorCode'') (JStr ''VALIDATION_ERROR''))]))"

text \<open>\<open>Array.prototype.map\<close> with a callback that may throw: the first throw ends it.\<close>

fun map_throwing :: "('a \<Rightarrow> thrown + 'b) \<Rightarrow> 'a list \<Rightarrow> thrown + 'b list" where
  "map_throwing f [] = Inr []"
| "map_throwing f (x # xs) =
     (case f x of Inl t \<Rightarrow> Inl t
      | Inr y \<Rightarrow> (case map_throwing f xs of Inl t \<Rightarrow> Inl t | Inr ys \<Rightarrow> Inr (y # ys)))"

definition openapi_error_handler :: "jsval \<Rightarrow> log_entry list \<times> handled" where
  "openapi_error_handler err =
     (if nullish_val err then
        ([], Threw (TypeError ''Cannot read properties of undefined (reading 'status')''))
      else if truthy (property err ''status'') \<and> truthy (property err ''errors'') then
        (let logs = [(LWarn, ''OpenAPI validation error'')] in
         case property err ''errors'' of
           JArr es \<Rightarrow>
             (case map_throwing format_error es of
                Inl t \<Rightarrow> (logs, Threw t)
              | Inr formatted \<Rightarrow>
                  (logs, Responded (property err ''status'')
                     (JObj [(''status'', property err ''status''),
                            (''message'', js_or (property err ''message'') (JStr ''Validation failed'')),
                            (''errors'', JArr formatted)])))
         | _ \<Rightarrow> (logs, Threw (TypeError ''err.errors.map is not a function'')))
      else ([], Forwarded err))"

text \<open>
  What the claim promises in an entry of the answer: the error's path and message, and
  its code, or \<open>VALIDATION_ERROR\<close> when it has none.
\<close>

definition entry_of :: "jsval \<Rightarrow> jsval" where
  "entry_of e =
     JObj [(''path'', property e ''path''),
           (''message'', property e ''message''),
           (''errorCode'', if truthy (property e ''errorCode'') then property e ''errorCode''
                           else JStr ''VALIDATION_ERROR'')]"

text \<open>The error has a property of that name, whatever its value.\<close>

fun has_prop :: "jsval \<Rightarrow> string \<Rightarrow> bool" where
  "has_prop (JObj ps) k = (k \<in> fst ` set ps)"
| "has_prop _ k = False"

lemma map_throwing_format:
  "\<forall>e \<in> set es. \<not> nullish_val e \<Longrightarrow> map_throwing format_error es = Inr (map entry_of es)"
  by (induction es) (simp_all add: format_error_def entry_of_def js_or_def)

lemma handler_responds:
  assumes "truthy (property err ''status'')" and "property err ''errors'' = JArr es"
    and "\<forall>e \<in> set es. \<not> nullish_val e"
  shows "openapi_error_handler err =
           ([(LWarn, ''OpenAPI validation error'')],
            Responded (property err ''status'')
              (JObj [(''status'', property err ''status''),
                     (''message'', if truthy (property err ''message'') then property err ''message''
                                   else JStr ''Validation failed''),
                     (''errors'', JArr (map entry_of es))]))"
proof -
  have "\<not> nullish_val err"
    using assms(1) by (auto simp: nullish_val_def)
  then show ?thesis
    using assms by (simp add: openapi_error_handler_def map_throwing_format js_or_def)
qed

lemma handler_forwards:
  assumes "\<not> nullish_val err" and "\<not> (truthy (property err ''status'') \<and> truthy (property err ''errors''))"
  shows "openapi_error_handler err = ([], Forwarded err)"
  using assms by (auto simp: openapi_error_handler_def)

text \<open>
  C6, as the code has it. When the error's \<open>status\<close> and \<open>errors\<close> are both truthy
  and \<open>errors\<close> is an array whose entries are neither \<open>undefined\<close> nor \<open>null\<close>, the
  handler writes one warning and answers with that status and the body
  \<open>{status, message, errors}\<close>: the message is the error's, or \<open>Validation failed\<close>
  when that is missing or empty, and each entry has the path, the message and the code
  of its error, \<open>VALIDATION_ERROR\<close> standing for a missing or empty code. When
  \<open>status\<close> or \<open>errors\<close> is missing or falsy, the error goes unchanged to the next
  handler and nothing is logged.
\<close>

theorem error_handler_formats_or_forwards:
  "(truthy (property err ''status'') \<and> property err ''errors'' = JArr es
      \<and> (\<forall>e \<in> set es. \<not> nullish_val e)
     \<longrightarrow> openapi_error_handler err =
           ([(LWarn, ''OpenAPI validation error'')],
            Responded (property err ''status'')
              (JObj [(''status'', property err ''status''),
                     (''message'', if truthy (property err ''message'') then property err ''message''
                                   else JStr ''Validation failed''),
                     (''errors'', JArr (map entry_of es))])))
   \<and> (\<not> nullish_val err' \<and> \<not> (truthy (property err' ''status'') \<and> truthy (property err' ''errors''))
     \<longrightarrow> openapi_error_handler err' = ([], Forwarded err'))"
  using handler_responds [of err es] handler_forwards [of err'] by blast

text \<open>
  The theorem at the validation error of the package's test, with one entry that has no
  code, and at a plain \<open>Error\<close>.
\<close>

definition validation_error :: jsval where
  "validation_error =
     JObj [(''status'', JNum 400),
           (''errors'', JArr [JObj [(''path'', JStr ''/body/name''),
                                    (''message'', JStr ''must be string''),
                                    (''errorCode'', JStr ''type.openapi.validation'')],
                              JObj [(''path'', JStr ''/body/age''),
                                    (''message'', JStr ''must be integer'')]])]"

theorem error_handler_formats_or_forwards_witness:
  "openapi_error_handler validation_error =
     ([(LWarn, ''OpenAPI validation error'')],
      Responded (JNum 400)
        (JObj [(''status'', JNum 400),
               (''message'', JStr ''Validation failed''),
               (''errors'', JArr [JObj [(''path'', JStr ''/body/name''),
                                        (''message'', JStr ''must be string''),
                                        (''errorCode'', JStr ''type.openapi.validation'')],
                                  JObj [(''path'', JStr ''/body/age''),
                                        (''message'', JStr ''must be integer''),
                                        (''errorCode'', JStr ''VALIDATION_ERROR'')]])]))
   \<and> openapi_error_handler (JObj [(''message'', JStr ''Some other error'')])
       = ([], Forwarded (JObj [(''message'', JStr ''Some other error'')]))"
  using error_handler_formats_or_forwards
          [where err = validation_error
             and es = "[JObj [(''path'', JStr ''/body/name''),
                              (''message'', JStr ''must be string''),
                              (''errorCode'', JStr ''type.openapi.validation'')],
                        JObj [(''path'', JStr ''/body/age''),
                              (''message'', JStr ''must be integer'')]]"
             and err' = "JObj [(''message'', JStr ''Some other error'')]"]
  by (simp add: validation_error_def nullish_val_def entry_of_def)

text \<open>
  An error that has a \<open>status\<close> and an \<open>errors\<close> property is not always answered.
  With the status 0, or with \<open>errors\<close> set to \<open>null\<close>, the test fails and the error is
  passed on; with an \<open>errors\<close> that is an object keyed by field, not an array, the
  handler logs the warning and then throws.
\<close>

theorem error_with_both_fields_not_formatted:
  "has_prop (JObj [(''status'', JNum 0), (''errors'', JArr [])]) ''status''
   \<and> has_prop (JObj [(''status'', JNum 0), (''errors'', JArr [])]) ''errors''
   \<and> openapi_error_handler (JObj [(''status'', JNum 0), (''errors'', JArr [])])
       = ([], Forwarded (JObj [(''status'', JNum 0), (''errors'', JArr [])]))
   \<and> has_prop (JObj [(''status'', JNum 400), (''errors'', JNull)]) ''status''
   \<and> has_prop (JObj [(''status'', JNum 400), (''errors'', JNull)]) ''errors''
   \<and> openapi_error_handler (JObj [(''status'', JNum 400), (''errors'', JNull)])
       = ([], Forwarded (JObj [(''status'', JNum 400), (''errors'', JNull)]))
   \<and> openapi_error_handler
        (JObj [(''status'', JNum 400),
               (''errors'', JObj [(''name'', JObj [(''message'', JStr ''is required'')])])])
       = ([(LWarn, ''OpenAPI validation error'')],
          Threw (TypeError ''err.errors.map is not a function''))"
  by (simp add: openapi_error_handler_def nullish_val_def)

section \<open>kafka-client: the message loop\<close>

text \<open>
  \<open>consumer.ts\<close>, the \<open>eachMessage\<close> callback that \<open>subscribe\<close> hands to the
  library. The caller's handler is a function of the payload that resolves (\<open>None\<close>)
  or throws. The world of the callback is the consumer, the log, and the payloads that
  were given to the handler so far. The counters are JavaScript numbers that only ever
  grow by one; they are natural numbers here.
\<close>

record EachMessagePayload =
  topic :: string
  partition :: int
  offset :: string
  content :: "string option"

type_synonym MessageHandler = "EachMessagePayload \<Rightarrow> thrown option"

record consumer_world =
  consumer :: KafkaConsumer
  log :: "log_entry list"
  delivered :: "EachMessagePayload list"

text \<open>The \<open>try\<close> block: the handler is awaited, then the message is counted.\<close>

definition eachMessage_try ::
  "MessageHandler \<Rightarrow> nat \<Rightarrow> EachMessagePayload \<Rightarrow> consumer_world \<Rightarrow> (thrown + unit) \<times> consumer_world" where
  "eachMessage_try handler now payload w =
     (let w1 = w\<lparr>delivered := delivered w @ [payload]\<rparr> in
      case handler payload of
        Some error \<Rightarrow> (Inl error, w1)
      | None \<Rightarrow>
          (Inr (),
           w1\<lparr>consumer := (consumer w1)\<lparr>stats := (stats (consumer w1))
                  \<lparr>processedCount := processedCount (stats (consumer w1)) + 1,
                   lastProcessedAt := Some now\<rparr>\<rparr>\<rparr>))"

text \<open>The callback: the \<open>catch\<close> block counts the error, logs it and does not rethrow.\<close>

definition eachMessage ::
  "MessageHandler \<Rightarrow> nat \<Rightarrow> EachMessagePayload \<Rightarrow> consumer_world \<Rightarrow> (thrown + unit) \<times> consumer_world" where
  "eachMessage handler now payload w =
     (case eachMessage_try handler now payload w of
        (Inr u, w1) \<Rightarrow> (Inr u, w1)
      | (Inl error, w1) \<Rightarrow>
          (Inr (),
           w1\<lparr>consumer := (consumer w1)\<lparr>stats := (stats (consumer w1))
                  \<lparr>errorCount := errorCount (stats (consumer w1)) + 1,
                   lastProcessedAt := Some now\<rparr>\<rparr>,
              log := log w1 @ [(LError, ''Error processing message'')]\<rparr>))"

text \<open>
  The library's loop, as the spec describes it: each message, with the clock reading at
  its arrival, is given to the callback and awaited before the next one is fetched; a
  callback that rejects ends the loop with that rejection.
\<close>

fun run_messages ::
  "MessageHandler \<Rightarrow> (nat \<times> EachMessagePayload) list \<Rightarrow> consumer_world \<Rightarrow> (thrown + unit) \<times> consumer_world" where
  "run_messages handler [] w = (Inr (), w)"
| "run_messages handler ((now, payload) # rest) w =
     (case eachMessage handler now payload w of
        (Inl error, w1) \<Rightarrow> (Inl error, w1)
      | (Inr _, w1) \<Rightarrow> run_messages handler rest w1)"

lemma eachMessage_resolves: "fst (eachMessage handler now payload w) = Inr ()"
  by (simp add: eachMessage_def eachMessage_try_def Let_def split: option.splits)

lemma eachMessage_delivered:
  "delivered (snd (eachMessage handler now payload w)) = delivered w @ [payload]"
  by (simp add: eachMessage_def eachMessage_try_def Let_def split: option.splits)

lemma eachMessage_running:
  "KafkaConsumer.isRunning (consumer (snd (eachMessage handler now payload w)))
     = KafkaConsumer.isRunning (consumer w)"
  by (simp add: eachMessage_def eachMessage_try_def Let_def split: option.splits)

lemma eachMessage_throwing:
  assumes "handler payload = Some e"
  shows "errorCount (stats (consumer (snd (eachMessage handler now payload w))))
           = errorCount (stats (consumer w)) + 1"
    and "processedCount (stats (consumer (snd (eachMessage handler now payload w))))
           = processedCount (stats (consumer w))"
    and "log (snd (eachMessage handler now payload w))
           = log w @ [(LError, ''Error processing message'')]"
  using assms by (simp_all add: eachMessage_def eachMessage_try_def Let_def)

lemma run_messages_step:
  "run_messages handler ((now, payload) # rest) w
     = run_messages handler rest (snd (eachMessage handler now payload w))"
proof -
  obtain r w1 where e: "eachMessage handler now payload w = (r, w1)"
    by (cases "eachMessage handler now payload w")
  then have "r = Inr ()"
    using eachMessage_resolves [of handler now payload w] by simp
  with e show ?thesis by simp
qed

lemma run_messages_all:
  "fst (run_messages handler ms w) = Inr ()
   \<and> delivered (snd (run_messages handler ms w)) = delivered w @ map snd ms"
proof (induction ms arbitrary: w)
  case Nil
  show ?case by simp
next
  case (Cons m ms)
  obtain now payload where m: "m = (now, payload)" by (cases m)
  show ?case
    unfolding m run_messages_step
    using Cons.IH [of "snd (eachMessage handler now payload w)"]
    by (simp add: eachMessage_delivered)
qed

text \<open>
  C4. When the handler throws on a message \<open>M\<close>: the callback resolves all the same,
  the error counter has grown by exactly one and the processed counter has not moved,
  the consumer is as running as before, and a loop that holds \<open>M\<close> anywhere goes on to
  the end: it does not reject, and the handler is given every message, the one after
  \<open>M\<close> included.
\<close>

theorem handler_error_is_counted_and_loop_continues:
  "handler M = Some e \<longrightarrow>
     fst (eachMessage handler now M w) = Inr ()
   \<and> errorCount (stats (consumer (snd (eachMessage handler now M w))))
       = errorCount (stats (consumer w)) + 1
   \<and> processedCount (stats (consumer (snd (eachMessage handler now M w))))
       = processedCount (stats (consumer w))
   \<and> KafkaConsumer.isRunning (consumer (snd (eachMessage handler now M w)))
       = KafkaConsumer.isRunning (consumer w)
   \<and> fst (run_messages handler (pre @ (now, M) # (now', M') # rest) w) = Inr ()
   \<and> delivered (snd (run_messages handler (pre @ (now, M) # (now', M') # rest) w))
       = delivered w @ map snd pre @ M # M' # map snd rest"
  using eachMessage_resolves [of handler now M w]
        eachMessage_throwing(1,2) [of handler M e now w]
        eachMessage_running [of handler now M w]
        run_messages_all [of handler "pre @ (now, M) # (now', M') # rest" w]
  by simp

text \<open>
  The theorem at a handler that throws on the message at offset 41 only, in a loop of
  the messages at offsets 41 and 42 on a consumer that has counted nothing yet.
\<close>

definition msg :: "string \<Rightarrow> EachMessagePayload" where
  "msg off = \<lparr> topic = ''events'', partition = 0, offset = off, content = Some ''{}'' \<rparr>"

definition fails_on_41 :: MessageHandler where
  "fails_on_41 payload = (if offset payload = ''41'' then Some (Error ''boom'') else None)"

definition fresh_world :: consumer_world where
  "fresh_world =
     \<lparr> consumer = \<lparr> KafkaConsumer.config = kafka_no_group\<lparr>KafkaConfig.groupId := Some ''g''\<rparr>,
                     KafkaConsumer.logger = consoleLogger,
                     KafkaConsumer.isRunning = True,
                     stats = \<lparr> processedCount = 0, errorCount = 0, lastProcessedAt = None,
                               ConsumerStats.isRunning = True \<rparr> \<rparr>,
       log = [], delivered = [] \<rparr>"

theorem handler_error_is_counted_and_loop_continues_witness:
  "fails_on_41 (msg ''41'') = Some (Error ''boom'')
   \<and> errorCount (stats (consumer (snd (eachMessage fails_on_41 100 (msg ''41'') fresh_world)))) = 1
   \<and> processedCount (stats (consumer (snd (eachMessage fails_on_41 100 (msg ''41'') fresh_world)))) = 0
   \<and> fst (run_messages fails_on_41 [(100, msg ''41''), (101, msg ''42'')] fresh_world) = Inr ()
   \<and> delivered (snd (run_messages fails_on_41 [(100, msg ''41''), (101, msg ''42'')] fresh_world))
       = [msg ''41'', msg ''42'']
   \<and> stats (consumer (snd (run_messages fails_on_41 [(100, msg ''41''), (101, msg ''42'')] fresh_world)))
       = \<lparr> processedCount = 1, errorCount = 1, lastProcessedAt = Some 101,
           ConsumerStats.isRunning = True \<rparr>"
  using handler_error_is_counted_and_loop_continues
          [where handler = fails_on_41 and M = "msg ''41''" and e = "Error ''boom''" and now = 100
             and w = fresh_world and pre = "[]" and now' = 101 and M' = "msg ''42''" and rest = "[]"]
  by (simp add: fails_on_41_def msg_def fresh_world_def eachMessage_def eachMessage_try_def)

section \<open>metrics-pusher: parsing the exposition text\<close>

text \<open>
  \<open>pusher.ts\<close>, \<open>parsePrometheusMetrics\<close>. The character classes are those of the two
  regular expressions of the source.
\<close>

text \<open>\<open>[a-zA-Z_:]\<close>\<close>

definition is_name_start :: "char \<Rightarrow> bool" where
  "is_name_start c =
     (c \<in> set (''abcdefghijklmnopqrstuvwxyz'' @ ''ABCDEFGHIJKLMNOPQRSTUVWXYZ'' @ ''_:''))"

text \<open>\<open>[a-zA-Z0-9_:]\<close>\<close>

definition is_name_char :: "char \<Rightarrow> bool" where
  "is_name_char c = (is_name_start c \<or> is_digit c)"

text \<open>\<open>[0-9.eE+-]\<close>\<close>

definition is_value_char :: "char \<Rightarrow> bool" where
  "is_value_char c = (c \<in> set ''0123456789.eE+-'')"

text \<open>
  \<open>s.split(sep)\<close> for a one-character separator, and the same for a class of
  separators: the pieces between the separators, empty ones included; a text without
  separator is its own single piece.
\<close>

fun split_at :: "(char \<Rightarrow> bool) \<Rightarrow> string \<Rightarrow> string list" where
  "split_at sep [] = [[]]"
| "split_at sep (c # cs) =
     (if sep c then [] # split_at sep cs
      else (case split_at sep cs of [] \<Rightarrow> [[c]] | l # ls \<Rightarrow> (c # l) # ls))"

definition split_lines :: "string \<Rightarrow> string list" where
  "split_lines s = split_at (\<lambda>c. c = CHR 0x0A) s"

text \<open>\<open>line.startsWith('#')\<close>\<close>

definition starts_with_hash :: "string \<Rightarrow> bool" where
  "starts_with_hash line = (case line of [] \<Rightarrow> False | c # _ \<Rightarrow> c = CHR ''#'')"

text \<open>\<open>line.trim()\<close>\<close>

definition trim :: "string \<Rightarrow> string" where
  "trim line = rev (dropWhile is_space (rev (dropWhile is_space line)))"

text \<open>
  \<open>line.match(/^([a-zA-Z_:][a-zA-Z0-9_:]*)/)\<close>: the match is anchored at the start of
  the line and the star is greedy, so the group is the first character and the longest
  run of name characters after it. Nothing is asked of what follows.
\<close>

definition nameMatch :: "string \<Rightarrow> string option" where
  "nameMatch line =
     (case line of
        [] \<Rightarrow> None
      | c # cs \<Rightarrow> if is_name_start c then Some (c # takeWhile is_name_char cs) else None)"

text \<open>
  \<open>/\s+([0-9.eE+-]+)(?:\s+\d+)?$/\<close> tried at one position: white space, the group,
  then either white space, digits and the end of the text, or the end of the text at
  once. White space and the group's characters are disjoint, and so are digits and white
  space, so each greedy run has to be taken whole: giving a character back never lets
  the rest match.
\<close>

definition match_value_at :: "string \<Rightarrow> string option" where
  "match_value_at s =
     (let ws = takeWhile is_space s; r = dropWhile is_space s;
          v = takeWhile is_value_char r; r2 = dropWhile is_value_char r;
          ws2 = takeWhile is_space r2; r3 = dropWhile is_space r2;
          ds = takeWhile is_digit r3; r4 = dropWhile is_digit r3
      in if ws = [] \<or> v = [] then None
         else if ws2 \<noteq> [] \<and> ds \<noteq> [] \<and> r4 = [] then Some v
         else if r2 = [] then Some v
         else None)"

text \<open>
  \<open>line.match(...)\<close> for that expression: the positions are tried from the left and the
  first that matches gives the group.
\<close>

fun valueMatch :: "string \<Rightarrow> string option" where
  "valueMatch [] = None"
| "valueMatch (c # cs) =
     (case match_value_at (c # cs) of Some v \<Rightarrow> Some v | None \<Rightarrow> valueMatch cs)"

text \<open>
  \<open>metrics\<close> is an object made by \<open>{}\<close>, kept as the list of its own properties in
  the order they were added. \<open>metrics[k] = v\<close> sets or replaces the own property \<open>k\<close>,
  except for the name \<open>__proto__\<close>: that assignment goes to the setter that every
  such object inherits, which ignores a number, and no property is made.
\<close>

type_synonym metrics = "(string \<times> jsnum) list"

definition assign :: "metrics \<Rightarrow> string \<Rightarrow> jsnum \<Rightarrow> metrics" where
  "assign obj k v = (if k = ''__proto__'' then obj else AList.update k v obj)"

definition Object_keys :: "metrics \<Rightarrow> string list" where
  "Object_keys obj = map fst obj"

text \<open>The loop over the lines, with the object it fills.\<close>

fun parse_lines :: "string list \<Rightarrow> metrics \<Rightarrow> metrics" where
  "parse_lines [] metrics = metrics"
| "parse_lines (line # lines) metrics =
     (if starts_with_hash line \<or> trim line = [] then parse_lines lines metrics
      else
        (case (nameMatch line, valueMatch line) of
           (Some metricName, Some valueText) \<Rightarrow>
             (let numericValue = parseFloat valueText in
              if \<not> isNaN numericValue
              then parse_lines lines (assign metrics metricName numericValue)
              else parse_lines lines metrics)
         | _ \<Rightarrow> parse_lines lines metrics))"

definition parsePrometheusMetrics :: "string \<Rightarrow> metrics" where
  "parsePrometheusMetrics metricsString = parse_lines (split_lines metricsString) []"

section \<open>metrics-pusher: what a line contributes\<close>

text \<open>
  The conditions under which a line gives a sample, stated on the line itself. The name
  of a line is its longest prefix of name characters, which must begin with a letter,
  an underscore or a colon. A numeric tail is a text made of white space and a token of
  the characters \<open>0-9 . e E + -\<close>, after which white space and a run of digits (a
  timestamp) may stand and nothing else. The value token of a line is the token of its
  longest suffix that is a numeric tail. A line is a sample line for a name and a value
  when it does not start with \<open>#\<close>, is not blank, has that name, and \<open>parseFloat\<close>
  reads that value, not \<open>NaN\<close>, from its value token.
\<close>

definition leading_name :: "string \<Rightarrow> string \<Rightarrow> bool" where
  "leading_name l n =
     (n \<noteq> [] \<and> is_name_start (hd n) \<and> list_all is_name_char n
      \<and> (\<exists>rest. l = n @ rest \<and> (rest = [] \<or> \<not> is_name_char (hd rest))))"

definition numeric_tail :: "string \<Rightarrow> string \<Rightarrow> bool" where
  "numeric_tail s tok =
     (\<exists>ws. ws \<noteq> [] \<and> list_all is_space ws \<and> tok \<noteq> [] \<and> list_all is_value_char tok
        \<and> (s = ws @ tok
           \<or> (\<exists>ws2 ds. ws2 \<noteq> [] \<and> list_all is_space ws2 \<and> ds \<noteq> [] \<and> list_all is_digit ds
                \<and> s = ws @ tok @ ws2 @ ds)))"

definition value_token :: "string \<Rightarrow> string \<Rightarrow> bool" where
  "value_token l tok =
     (\<exists>pre suf. l = pre @ suf \<and> numeric_tail suf tok
        \<and> (\<forall>pre' suf' tok'. l = pre' @ suf' \<and> length pre' < length pre
              \<longrightarrow> \<not> numeric_tail suf' tok'))"

definition sample_line :: "string \<Rightarrow> string \<Rightarrow> jsnum \<Rightarrow> bool" where
  "sample_line l n v =
     (\<not> starts_with_hash l \<and> \<not> list_all is_space l \<and> leading_name l n \<and> v \<noteq> NaN
      \<and> (\<exists>tok. value_token l tok \<and> parseFloat tok = v))"

lemma span_unique:
  "list_all P a \<Longrightarrow> b = [] \<or> \<not> P (hd b) \<Longrightarrow> takeWhile P (a @ b) = a \<and> dropWhile P (a @ b) = b"
proof (induction a)
  case Nil
  then show ?case by (cases b) auto
next
  case (Cons x a)
  then show ?case by simp
qed

lemma span_whole: "list_all P a \<Longrightarrow> takeWhile P a = a \<and> dropWhile P a = []"
  using span_unique [of P a "[]"] by simp

lemma value_not_space: "is_value_char c \<Longrightarrow> \<not> is_space c"
  by (auto simp: is_value_char_def is_space_def)

lemma digit_not_space: "is_digit c \<Longrightarrow> \<not> is_space c"
  by (auto simp: is_digit_def is_space_def)

lemma space_not_value: "is_space c \<Longrightarrow> \<not> is_value_char c"
  using value_not_space by blast

lemma name_start_is_name_char: "is_name_start c \<Longrightarrow> is_name_char c"
  by (simp add: is_name_char_def)

lemma all_dropWhile: "(\<forall>x \<in> set (dropWhile P l). P x) \<longleftrightarrow> (\<forall>x \<in> set l. P x)"
  by (induction l) auto

lemma trim_empty_iff: "trim l = [] \<longleftrightarrow> list_all is_space l"
  by (simp add: trim_def dropWhile_eq_Nil_conv list_all_iff all_dropWhile)

lemma nameMatch_iff: "nameMatch l = Some n \<longleftrightarrow> leading_name l n"
proof
  assume m: "nameMatch l = Some n"
  then obtain c cs where l: "l = c # cs" and c: "is_name_start c"
    and n: "n = c # takeWhile is_name_char cs"
    by (auto simp: nameMatch_def split: list.splits if_splits)
  have "l = n @ dropWhile is_name_char cs"
    by (simp add: l n)
  moreover have "dropWhile is_name_char cs = [] \<or> \<not> is_name_char (hd (dropWhile is_name_char cs))"
    using hd_dropWhile [of is_name_char cs] by blast
  moreover have "list_all is_name_char n"
    using c by (auto simp: n list_all_iff name_start_is_name_char dest: set_takeWhileD)
  ultimately have "\<exists>rest. l = n @ rest \<and> (rest = [] \<or> \<not> is_name_char (hd rest))"
    and "list_all is_name_char n"
    by blast+
  then show "leading_name l n"
    unfolding leading_name_def using c n by simp
next
  assume "leading_name l n"
  then obtain rest where n: "n \<noteq> []" "is_name_start (hd n)" "list_all is_name_char n"
    and l: "l = n @ rest" and r: "rest = [] \<or> \<not> is_name_char (hd rest)"
    unfolding leading_name_def by blast
  obtain c n' where cn: "n = c # n'" using n(1) by (cases n) auto
  have "list_all is_name_char n'" using n(3) cn by simp
  then have "takeWhile is_name_char (n' @ rest) = n'"
    using span_unique [of is_name_char n' rest] r by blast
  then show "nameMatch l = Some n"
    using n(2) by (simp add: nameMatch_def l cn)
qed

lemma match_value_at_sound:
  assumes "match_value_at s = Some tok"
  shows "numeric_tail s tok"
proof -
  define ws where "ws = takeWhile is_space s"
  define r where "r = dropWhile is_space s"
  define r2 where "r2 = dropWhile is_value_char r"
  define ws2 where "ws2 = takeWhile is_space r2"
  define r3 where "r3 = dropWhile is_space r2"
  define ds where "ds = takeWhile is_digit r3"
  define r4 where "r4 = dropWhile is_digit r3"
  have unf: "match_value_at s =
      (if ws = [] \<or> takeWhile is_value_char r = [] then None
       else if ws2 \<noteq> [] \<and> ds \<noteq> [] \<and> r4 = [] then Some (takeWhile is_value_char r)
       else if r2 = [] then Some (takeWhile is_value_char r) else None)"
    by (simp add: match_value_at_def Let_def ws_def r_def r2_def ws2_def r3_def ds_def r4_def)
  have tok: "tok = takeWhile is_value_char r" and ws: "ws \<noteq> []" and tokne: "tok \<noteq> []"
    using assms unfolding unf by (auto split: if_splits)
  have s: "s = ws @ tok @ r2"
    by (simp add: ws_def r_def tok r2_def)
  have aws: "list_all is_space ws"
    by (auto simp: ws_def list_all_iff dest: set_takeWhileD)
  have atok: "list_all is_value_char tok"
    by (auto simp: tok list_all_iff dest: set_takeWhileD)
  have "(ws2 \<noteq> [] \<and> ds \<noteq> [] \<and> r4 = []) \<or> r2 = []"
    using assms unfolding unf by (auto split: if_splits)
  then show ?thesis
  proof
    assume a: "ws2 \<noteq> [] \<and> ds \<noteq> [] \<and> r4 = []"
    have "r2 = ws2 @ ds @ r4"
      by (simp add: ws2_def r3_def ds_def r4_def)
    then have "s = ws @ tok @ ws2 @ ds" using s a by simp
    moreover have "list_all is_space ws2"
      by (auto simp: ws2_def list_all_iff dest: set_takeWhileD)
    moreover have "list_all is_digit ds"
      by (auto simp: ds_def list_all_iff dest: set_takeWhileD)
    ultimately show ?thesis
      unfolding numeric_tail_def using ws aws tokne atok a by blast
  next
    assume "r2 = []"
    then have "s = ws @ tok" using s by simp
    then show ?thesis
      unfolding numeric_tail_def using ws aws tokne atok by blast
  qed
qed

lemma match_value_at_plain:
  assumes "ws \<noteq> []" "list_all is_space ws" "tok \<noteq> []" "list_all is_value_char tok"
  shows "match_value_at (ws @ tok) = Some tok"
proof -
  have h: "\<not> is_space (hd tok)"
    using assms(3,4) by (cases tok) (auto simp: value_not_space)
  have 1: "takeWhile is_space (ws @ tok) = ws" "dropWhile is_space (ws @ tok) = tok"
    using span_unique [of is_space ws tok] assms(2) h by auto
  have 2: "takeWhile is_value_char tok = tok" "dropWhile is_value_char tok = []"
    using span_whole [of is_value_char tok] assms(4) by auto
  show ?thesis
    by (simp add: match_value_at_def Let_def 1 2 assms(1,3))
qed

lemma match_value_at_stamped:
  assumes "ws \<noteq> []" "list_all is_space ws" "tok \<noteq> []" "list_all is_value_char tok"
    and "ws2 \<noteq> []" "list_all is_space ws2" "ds \<noteq> []" "list_all is_digit ds"
  shows "match_value_at (ws @ tok @ ws2 @ ds) = Some tok"
proof -
  have h: "\<not> is_space (hd (tok @ ws2 @ ds))"
    using assms(3,4) by (cases tok) (auto simp: value_not_space)
  have 1: "takeWhile is_space (ws @ tok @ ws2 @ ds) = ws"
          "dropWhile is_space (ws @ tok @ ws2 @ ds) = tok @ ws2 @ ds"
    using span_unique [of is_space ws "tok @ ws2 @ ds"] assms(2) h by auto
  have h2: "\<not> is_value_char (hd (ws2 @ ds))"
    using assms(5,6) by (cases ws2) (auto simp: space_not_value)
  have 2: "takeWhile is_value_char (tok @ ws2 @ ds) = tok"
          "dropWhile is_value_char (tok @ ws2 @ ds) = ws2 @ ds"
    using span_unique [of is_value_char tok "ws2 @ ds"] assms(4) h2 by auto
  have h3: "\<not> is_space (hd ds)"
    using assms(7,8) by (cases ds) (auto simp: digit_not_space)
  have 3: "takeWhile is_space (ws2 @ ds) = ws2" "dropWhile is_space (ws2 @ ds) = ds"
    using span_unique [of is_space ws2 ds] assms(6) h3 by auto
  have 4: "takeWhile is_digit ds = ds" "dropWhile is_digit ds = []"
    using span_whole [of is_digit ds] assms(8) by auto
  show ?thesis
    by (simp add: match_value_at_def Let_def 1 2 3 4 assms(1,3,5,7))
qed

lemma match_value_at_iff: "match_value_at s = Some tok \<longleftrightarrow> numeric_tail s tok"
proof
  assume "match_value_at s = Some tok"
  then show "numeric_tail s tok" by (rule match_value_at_sound)
next
  assume "numeric_tail s tok"
  then show "match_value_at s = Some tok"
    unfolding numeric_tail_def
    using match_value_at_plain match_value_at_stamped by blast
qed

lemma match_value_at_None: "match_value_at s = None \<longleftrightarrow> (\<forall>tok. \<not> numeric_tail s tok)"
  using match_value_at_iff [of s] by (cases "match_value_at s") auto

lemma value_token_Nil: "\<not> value_token [] tok"
  by (auto simp: value_token_def numeric_tail_def)

lemma value_token_here:
  assumes "numeric_tail (c # cs) v"
  shows "value_token (c # cs) tok \<longleftrightarrow> tok = v"
proof
  assume "value_token (c # cs) tok"
  then obtain pre suf where d: "c # cs = pre @ suf" "numeric_tail suf tok"
    and least: "\<forall>pre' suf' tok'. c # cs = pre' @ suf' \<and> length pre' < length pre
                  \<longrightarrow> \<not> numeric_tail suf' tok'"
    unfolding value_token_def by blast
  have "pre = []"
  proof (rule ccontr)
    assume "pre \<noteq> []"
    then have "length [] < length pre" by simp
    with least have "\<not> numeric_tail (c # cs) v" by (metis append_Nil)
    with assms show False by simp
  qed
  with d have "numeric_tail (c # cs) tok" by simp
  then show "tok = v"
    using assms match_value_at_iff by (metis option.inject)
next
  assume "tok = v"
  then show "value_token (c # cs) tok"
    unfolding value_token_def using assms by (intro exI [of _ "[]"] exI [of _ "c # cs"]) simp
qed

lemma value_token_later:
  assumes "\<forall>v. \<not> numeric_tail (c # cs) v"
  shows "value_token (c # cs) tok \<longleftrightarrow> value_token cs tok"
proof
  assume "value_token (c # cs) tok"
  then obtain pre suf where d: "c # cs = pre @ suf" "numeric_tail suf tok"
    and least: "\<forall>pre' suf' tok'. c # cs = pre' @ suf' \<and> length pre' < length pre
                  \<longrightarrow> \<not> numeric_tail suf' tok'"
    unfolding value_token_def by blast
  have "pre \<noteq> []" using d assms by auto
  then obtain p where p: "pre = c # p" and cs: "cs = p @ suf"
    using d(1) by (cases pre) auto
  have "\<forall>p' suf' tok'. cs = p' @ suf' \<and> length p' < length p \<longrightarrow> \<not> numeric_tail suf' tok'"
  proof (intro allI impI)
    fix p' suf' tok' assume a: "cs = p' @ suf' \<and> length p' < length p"
    then have "c # cs = (c # p') @ suf' \<and> length (c # p') < length pre"
      using p by simp
    with least show "\<not> numeric_tail suf' tok'" by blast
  qed
  with cs d(2) show "value_token cs tok"
    unfolding value_token_def by blast
next
  assume "value_token cs tok"
  then obtain p suf where d: "cs = p @ suf" "numeric_tail suf tok"
    and least: "\<forall>p' suf' tok'. cs = p' @ suf' \<and> length p' < length p
                  \<longrightarrow> \<not> numeric_tail suf' tok'"
    unfolding value_token_def by blast
  have "\<forall>pre' suf' tok'. c # cs = pre' @ suf' \<and> length pre' < length (c # p)
          \<longrightarrow> \<not> numeric_tail suf' tok'"
  proof (intro allI impI)
    fix pre' suf' tok' assume a: "c # cs = pre' @ suf' \<and> length pre' < length (c # p)"
    show "\<not> numeric_tail suf' tok'"
    proof (cases pre')
      case Nil
      with a assms show ?thesis by simp
    next
      case (Cons x xs)
      with a have "cs = xs @ suf' \<and> length xs < length p" by simp
      with least show ?thesis by blast
    qed
  qed
  moreover have "c # cs = (c # p) @ suf" using d(1) by simp
  ultimately show "value_token (c # cs) tok"
    unfolding value_token_def using d(2) by blast
qed

lemma valueMatch_iff: "valueMatch l = Some tok \<longleftrightarrow> value_token l tok"
proof (induction l)
  case Nil
  show ?case by (simp add: value_token_Nil)
next
  case (Cons c cs)
  show ?case
  proof (cases "match_value_at (c # cs)")
    case None
    then have "\<forall>v. \<not> numeric_tail (c # cs) v" by (simp add: match_value_at_None)
    then show ?thesis
      using None Cons.IH by (simp add: value_token_later)
  next
    case (Some v)
    then have "numeric_tail (c # cs) v" by (simp add: match_value_at_iff)
    then show ?thesis
      using Some by (auto simp: value_token_here)
  qed
qed


text \<open>
  The branch that the loop takes for one line, as a function: the property it sets, if
  any. \<open>last_value\<close> is the value of the last line of a list that sets a given name.
\<close>

definition line_entry :: "string \<Rightarrow> (string \<times> jsnum) option" where
  "line_entry line =
     (if starts_with_hash line \<or> trim line = [] then None
      else (case (nameMatch line, valueMatch line) of
              (Some n, Some t) \<Rightarrow> if \<not> isNaN (parseFloat t) then Some (n, parseFloat t) else None
            | _ \<Rightarrow> None))"

fun last_value :: "string \<Rightarrow> string list \<Rightarrow> jsnum option" where
  "last_value n [] = None"
| "last_value n (l # ls) =
     (case last_value n ls of
        Some v \<Rightarrow> Some v
      | None \<Rightarrow> (case line_entry l of Some (k, v) \<Rightarrow> if k = n then Some v else None | None \<Rightarrow> None))"

lemma parse_lines_step:
  "parse_lines (line # lines) m
     = parse_lines lines (case line_entry line of None \<Rightarrow> m | Some (k, v) \<Rightarrow> assign m k v)"
  by (simp add: line_entry_def Let_def split: option.splits)

lemma line_entry_iff: "line_entry l = Some (n, v) \<longleftrightarrow> sample_line l n v"
proof
  assume e: "line_entry l = Some (n, v)"
  then have a: "\<not> starts_with_hash l" "trim l \<noteq> []"
    by (auto simp: line_entry_def split: if_splits)
  with e obtain t where t: "nameMatch l = Some n" "valueMatch l = Some t"
      "parseFloat t = v" "v \<noteq> NaN"
    by (auto simp: line_entry_def isNaN_def split: option.splits if_splits)
  show "sample_line l n v"
    unfolding sample_line_def
    using a t by (auto simp: trim_empty_iff nameMatch_iff valueMatch_iff)
next
  assume "sample_line l n v"
  then obtain tok where a: "\<not> starts_with_hash l" "\<not> list_all is_space l" "leading_name l n"
      "v \<noteq> NaN" "value_token l tok" "parseFloat tok = v"
    unfolding sample_line_def by blast
  have "nameMatch l = Some n" "valueMatch l = Some tok" "trim l \<noteq> []"
    using a by (simp_all add: nameMatch_iff valueMatch_iff trim_empty_iff)
  then show "line_entry l = Some (n, v)"
    using a by (simp add: line_entry_def isNaN_def)
qed

lemma map_of_assign:
  "n \<noteq> ''__proto__'' \<Longrightarrow> map_of (assign m k v) n = (if k = n then Some v else map_of m n)"
  by (auto simp: assign_def update_conv')

lemma parse_lines_lookup:
  "n \<noteq> ''__proto__'' \<Longrightarrow>
   map_of (parse_lines ls m) n = (case last_value n ls of Some v \<Rightarrow> Some v | None \<Rightarrow> map_of m n)"
proof (induction ls arbitrary: m)
  case Nil
  show ?case by simp
next
  case (Cons l ls)
  show ?case
    unfolding parse_lines_step
    using Cons.prems
    by (simp add: Cons.IH map_of_assign split: option.splits)
qed

lemma last_value_None:
  "last_value n ls = None \<longleftrightarrow> (\<forall>l \<in> set ls. \<forall>v. line_entry l \<noteq> Some (n, v))"
  by (induction ls) (auto split: option.splits)

lemma last_value_Some:
  "last_value n ls = Some v \<longleftrightarrow>
     (\<exists>before l after. ls = before @ l # after \<and> line_entry l = Some (n, v)
        \<and> (\<forall>l' \<in> set after. \<forall>v'. line_entry l' \<noteq> Some (n, v')))"
proof (induction ls)
  case Nil
  show ?case by simp
next
  case (Cons x xs)
  let ?Q = "\<lambda>ys. \<exists>before l after. ys = before @ l # after \<and> line_entry l = Some (n, v)
        \<and> (\<forall>l' \<in> set after. \<forall>v'. line_entry l' \<noteq> Some (n, v'))"
  have split: "?Q (x # xs) \<longleftrightarrow>
      (line_entry x = Some (n, v) \<and> (\<forall>l' \<in> set xs. \<forall>v'. line_entry l' \<noteq> Some (n, v'))) \<or> ?Q xs"
  proof
    assume "?Q (x # xs)"
    then obtain before l after where d: "x # xs = before @ l # after" "line_entry l = Some (n, v)"
        "\<forall>l' \<in> set after. \<forall>v'. line_entry l' \<noteq> Some (n, v')"
      by blast
    show "(line_entry x = Some (n, v) \<and> (\<forall>l' \<in> set xs. \<forall>v'. line_entry l' \<noteq> Some (n, v'))) \<or> ?Q xs"
    proof (cases before)
      case Nil
      with d show ?thesis by simp
    next
      case (Cons b bs)
      with d have "xs = bs @ l # after" by simp
      with d show ?thesis by blast
    qed
  next
    assume "(line_entry x = Some (n, v) \<and> (\<forall>l' \<in> set xs. \<forall>v'. line_entry l' \<noteq> Some (n, v'))) \<or> ?Q xs"
    then show "?Q (x # xs)"
    proof
      assume "line_entry x = Some (n, v) \<and> (\<forall>l' \<in> set xs. \<forall>v'. line_entry l' \<noteq> Some (n, v'))"
      then show ?thesis by (intro exI [of _ "[]"] exI [of _ x] exI [of _ xs]) simp
    next
      assume "?Q xs"
      then obtain before l after where d: "xs = before @ l # after" "line_entry l = Some (n, v)"
          "\<forall>l' \<in> set after. \<forall>v'. line_entry l' \<noteq> Some (n, v')"
        by blast
      then have "x # xs = (x # before) @ l # after" by simp
      with d show ?thesis by blast
    qed
  qed
  have "last_value n (x # xs) = Some v \<longleftrightarrow>
      last_value n xs = Some v \<or> (last_value n xs = None \<and> line_entry x = Some (n, v))"
    by (auto split: option.splits)
  also have "\<dots> \<longleftrightarrow> ?Q xs \<or> (line_entry x = Some (n, v)
      \<and> (\<forall>l' \<in> set xs. \<forall>v'. line_entry l' \<noteq> Some (n, v')))"
    using Cons.IH by (auto simp: last_value_None)
  finally show ?case
    using split by blast
qed

text \<open>
  C1, as the code has it. For every text and every name but \<open>__proto__\<close>, the object
  that \<open>parsePrometheusMetrics\<close> returns has the property \<open>n\<close> with the value \<open>v\<close>
  exactly when some line of the text is a sample line for \<open>n\<close> and \<open>v\<close> and no later
  line is a sample line for \<open>n\<close>: labels play no part, and of two lines with one name
  the later wins.
\<close>

theorem parsed_entry_is_last_sample_line:
  assumes "n \<noteq> ''__proto__''"
  shows "map_of (parsePrometheusMetrics s) n = Some v \<longleftrightarrow>
     (\<exists>before l after. split_lines s = before @ l # after \<and> sample_line l n v
        \<and> (\<forall>l' \<in> set after. \<forall>v'. \<not> sample_line l' n v'))"
proof -
  have "map_of (parsePrometheusMetrics s) n = last_value n (split_lines s)"
    using assms by (simp add: parsePrometheusMetrics_def parse_lines_lookup split: option.splits)
  then show ?thesis
    by (simp add: last_value_Some line_entry_iff)
qed

text \<open>
  The theorem at three lines of which the first and the last have the name \<open>a\<close>,
  carry different labels, and the first has a timestamp.
\<close>

definition three_lines :: string where
  "three_lines = ''a{x=\"1\"} 1 1700000000'' @ [CHR 0x0A] @ ''b 2'' @ [CHR 0x0A] @ ''a{x=\"2\"} 3''"

lemmas parse_eval =
  parsePrometheusMetrics_def split_lines_def starts_with_hash_def trim_def nameMatch_def
  match_value_at_def is_space_def is_digit_def is_name_start_def is_name_char_def
  is_value_char_def parseFloat_def isNaN_def assign_def digits_val_def digit_val_def
  scale10_def

theorem parsed_entry_is_last_sample_line_witness:
  "''a'' \<noteq> ''__proto__''
   \<and> parsePrometheusMetrics three_lines = [(''a'', Number 3), (''b'', Number 2)]
   \<and> (\<exists>before l after. split_lines three_lines = before @ l # after
         \<and> sample_line l ''a'' (Number 3)
         \<and> (\<forall>l' \<in> set after. \<forall>v'. \<not> sample_line l' ''a'' v'))"
proof -
  have n: "''a'' \<noteq> ''__proto__''" by simp
  have p: "parsePrometheusMetrics three_lines = [(''a'', Number 3), (''b'', Number 2)]"
    by (simp add: three_lines_def parse_eval)
  then have "map_of (parsePrometheusMetrics three_lines) ''a'' = Some (Number 3)"
    by simp
  then show ?thesis
    using n p parsed_entry_is_last_sample_line [OF n, of three_lines "Number 3"] by simp
qed

text \<open>The name that the theorem leaves out: its line sets no property.\<close>

lemma proto_line_sets_nothing: "parsePrometheusMetrics ''__proto__ 5'' = []"
  by (simp add: parse_eval)

text \<open>
  The value token is that of the longest numeric tail, which is the leftmost match of
  the source's second expression: a timestamp is never taken for the value, and a token
  that is no number is not passed over for a number after it.
\<close>

lemma longest_numeric_tail_decides:
  "parsePrometheusMetrics ''a 1 1700000000'' = [(''a'', Number 1)]"
  "parsePrometheusMetrics ''a + 5'' = []"
  by (simp_all add: parse_eval)

text \<open>
  The conditions in the spec's words: the tokens of a line are its pieces between white
  space, and a metric name is valid when it is a name start followed by name characters.
\<close>

definition tokens :: "string \<Rightarrow> string list" where
  "tokens line = filter (\<lambda>t. t \<noteq> []) (split_at is_space line)"

definition valid_metric_name :: "string \<Rightarrow> bool" where
  "valid_metric_name n = (n \<noteq> [] \<and> is_name_start (hd n) \<and> list_all is_name_char n)"

text \<open>
  A line that ends in white space gives no entry, although it is no comment, is not
  blank, its leading token is a valid metric name and its trailing token parses as a
  number: the second expression of the source ends in \<open>$\<close> and allows nothing after the
  value but a timestamp. A text with CR LF line ends is such a text.
\<close>

theorem trailing_space_line_gives_no_entry:
  "\<not> starts_with_hash ''requests_total 42 ''
   \<and> \<not> list_all is_space ''requests_total 42 ''
   \<and> tokens ''requests_total 42 '' = [''requests_total'', ''42'']
   \<and> valid_metric_name ''requests_total''
   \<and> parseFloat ''42'' = Number 42
   \<and> parsePrometheusMetrics ''requests_total 42 '' = []
   \<and> parsePrometheusMetrics (''requests_total 42'' @ [CHR 0x0D, CHR 0x0A]) = []"
  by (simp add: tokens_def valid_metric_name_def parse_eval)


section \<open>metrics-pusher: one push\<close>

text \<open>
  \<open>pusher.ts\<close>, \<open>pushMetrics\<close>. The world of the pusher is its log, the forwarding
  calls made so far (each with the samples, the URL and the two labels), and the timers
  of the runtime: each with its handle, its period and the function it runs. The class
  gives \<open>setInterval\<close> one function only, the arrow function of \<open>start\<close> that pushes
  and logs a rejection. What the registry's \<open>metrics()\<close> resolves to, and whether the
  forwarding call of the \<open>prometheus-remote-write\<close> library fails, are inputs.
\<close>

datatype push_call = PushCall metrics string "(string \<times> string) list"

datatype timer_callback = PeriodicPush

record pusher_world =
  log :: "log_entry list"
  pushed :: "push_call list"
  timers :: "(nat \<times> int \<times> timer_callback) list"
  next_timer :: nat

type_synonym registry = "thrown + string"
type_synonym remote = "push_call \<Rightarrow> thrown option"

definition logged :: "log_entry \<Rightarrow> pusher_world \<Rightarrow> pusher_world" where
  "logged e w = w\<lparr>pusher_world.log := pusher_world.log w @ [e]\<rparr>"

text \<open>The \<open>try\<close> block: a rejection of the registry or of the forwarding call leaves it.\<close>

definition pushMetrics_try ::
  "MetricsPusher \<Rightarrow> registry \<Rightarrow> remote \<Rightarrow> pusher_world \<Rightarrow> (thrown + unit) \<times> pusher_world" where
  "pushMetrics_try this reg forward w =
     (case reg of
        Inl error \<Rightarrow> (Inl error, w)
      | Inr metricsString \<Rightarrow>
          (let metrics = parsePrometheusMetrics metricsString in
           if length (Object_keys metrics) = 0 then
             (Inr (), logged (LWarn, ''No metrics to push'') w)
           else
             (let call = PushCall metrics (MetricsPusher.alloyUrl this)
                           [(''service'', MetricsPusher.serviceName this),
                            (''environment'', MetricsPusher.environment this)];
                  w1 = w\<lparr>pushed := pushed w @ [call]\<rparr>
              in case forward call of
                   Some error \<Rightarrow> (Inl error, w1)
                 | None \<Rightarrow> (Inr (), logged (LDebug, ''Pushed metrics successfully'') w1))))"

text \<open>The method: nothing at all without a URL; the \<open>catch\<close> block logs and returns.\<close>

definition pushMetrics ::
  "MetricsPusher \<Rightarrow> registry \<Rightarrow> remote \<Rightarrow> pusher_world \<Rightarrow> (thrown + unit) \<times> pusher_world" where
  "pushMetrics this reg forward w =
     (if MetricsPusher.alloyUrl this = [] then (Inr (), w)
      else
        (case pushMetrics_try this reg forward w of
           (Inl error, w1) \<Rightarrow> (Inr (), logged (LError, ''Failed to push metrics'') w1)
         | (Inr u, w1) \<Rightarrow> (Inr u, w1)))"

text \<open>The forwarding call that a push makes for a text.\<close>

definition call_for :: "MetricsPusher \<Rightarrow> string \<Rightarrow> push_call" where
  "call_for this snapshot =
     PushCall (parsePrometheusMetrics snapshot) (MetricsPusher.alloyUrl this)
       [(''service'', MetricsPusher.serviceName this),
        (''environment'', MetricsPusher.environment this)]"

lemma pushMetrics_resolves: "fst (pushMetrics p reg forward w) = Inr ()"
  by (simp add: pushMetrics_def pushMetrics_try_def Let_def
           split: sum.splits option.splits prod.splits)

lemma pushMetrics_keeps_timers:
  "timers (snd (pushMetrics p reg forward w)) = timers w
   \<and> next_timer (snd (pushMetrics p reg forward w)) = next_timer w"
  by (simp add: pushMetrics_def pushMetrics_try_def Let_def logged_def
           split: sum.splits option.splits prod.splits)

lemma pushMetrics_empty:
  assumes "MetricsPusher.alloyUrl p \<noteq> []" and "parsePrometheusMetrics snapshot = []"
  shows "snd (pushMetrics p (Inr snapshot) forward w) = logged (LWarn, ''No metrics to push'') w"
  using assms by (simp add: pushMetrics_def pushMetrics_try_def Object_keys_def)

lemma pushMetrics_forward_fails:
  assumes "MetricsPusher.alloyUrl p \<noteq> []" and "parsePrometheusMetrics snapshot \<noteq> []"
    and "forward (call_for p snapshot) = Some e"
  shows "snd (pushMetrics p (Inr snapshot) forward w)
           = logged (LError, ''Failed to push metrics'') (w\<lparr>pushed := pushed w @ [call_for p snapshot]\<rparr>)"
  using assms
  by (simp add: pushMetrics_def pushMetrics_try_def Object_keys_def call_for_def Let_def)

lemma pushMetrics_registry_fails:
  assumes "MetricsPusher.alloyUrl p \<noteq> []"
  shows "snd (pushMetrics p (Inl e) forward w) = logged (LError, ''Failed to push metrics'') w"
  using assms by (simp add: pushMetrics_def pushMetrics_try_def)

text \<open>
  C2. Whatever the registry gives and whatever the remote end does, \<open>pushMetrics\<close>
  resolves. With a URL configured: when the parsed samples are empty it logs the warning
  and makes no forwarding call; when the forwarding call fails, or the registry does, the
  failure is logged as an error and the call still resolves.
\<close>

theorem pushMetrics_never_throws:
  "fst (pushMetrics p reg forward w) = Inr ()
   \<and> (MetricsPusher.alloyUrl p \<noteq> [] \<and> parsePrometheusMetrics snapshot = []
      \<longrightarrow> snd (pushMetrics p (Inr snapshot) forward w) = logged (LWarn, ''No metrics to push'') w
        \<and> pushed (snd (pushMetrics p (Inr snapshot) forward w)) = pushed w)
   \<and> (MetricsPusher.alloyUrl p \<noteq> [] \<and> parsePrometheusMetrics snapshot' \<noteq> []
        \<and> forward (call_for p snapshot') = Some e
      \<longrightarrow> fst (pushMetrics p (Inr snapshot') forward w) = Inr ()
        \<and> snd (pushMetrics p (Inr snapshot') forward w)
            = logged (LError, ''Failed to push metrics'')
                (w\<lparr>pushed := pushed w @ [call_for p snapshot']\<rparr>))
   \<and> (MetricsPusher.alloyUrl p \<noteq> []
      \<longrightarrow> snd (pushMetrics p (Inl e') forward w) = logged (LError, ''Failed to push metrics'') w)"
  using pushMetrics_resolves [of p] pushMetrics_empty [of p snapshot forward w]
        pushMetrics_forward_fails [of p snapshot' forward e w]
        pushMetrics_registry_fails [of p e' forward w]
  by (simp add: logged_def)

text \<open>
  The theorem at a pusher with a URL: an empty registry snapshot, and a snapshot with one sample
  while the remote end refuses the call.
\<close>

definition pusher_w :: MetricsPusher where
  "pusher_w = \<lparr> intervalId = None, pushIntervalMs = 15000,
                alloyUrl = ''http://alloy:9091/api/v1/metrics/write'',
                MetricsPusher.serviceName = ''svc'', MetricsPusher.environment = ''test'',
                MetricsPusher.isRunning = False, MetricsPusher.logger = consoleLogger \<rparr>"

definition world0 :: pusher_world where
  "world0 = \<lparr> pusher_world.log = [], pushed = [], timers = [], next_timer = 1 \<rparr>"

theorem pushMetrics_never_throws_witness:
  "MetricsPusher.alloyUrl pusher_w \<noteq> []
   \<and> parsePrometheusMetrics [] = []
   \<and> pushMetrics pusher_w (Inr []) (\<lambda>_. None) world0
       = (Inr (), world0\<lparr>pusher_world.log := [(LWarn, ''No metrics to push'')]\<rparr>)
   \<and> parsePrometheusMetrics ''requests_total 42'' = [(''requests_total'', Number 42)]
   \<and> pushMetrics pusher_w (Inr ''requests_total 42'') (\<lambda>_. Some (Rejection ''ECONNREFUSED'')) world0
       = (Inr (),
          world0\<lparr>pushed := [PushCall [(''requests_total'', Number 42)]
                                ''http://alloy:9091/api/v1/metrics/write''
                                [(''service'', ''svc''), (''environment'', ''test'')]],
                 pusher_world.log := [(LError, ''Failed to push metrics'')]\<rparr>)"
proof -
  have e: "parsePrometheusMetrics [] = []"
    by (simp add: parse_eval)
  have q: "parsePrometheusMetrics ''requests_total 42'' = [(''requests_total'', Number 42)]"
    by (simp add: parse_eval)
  show ?thesis
    using pushMetrics_never_throws
            [where p = pusher_w and reg = "Inr []" and forward = "\<lambda>_. None" and w = world0
               and snapshot = "[]" and snapshot' = "[]" and e = "Rejection ''ECONNREFUSED''"]
          pushMetrics_never_throws
            [where p = pusher_w and reg = "Inr ''requests_total 42''"
               and forward = "\<lambda>_. Some (Rejection ''ECONNREFUSED'')" and w = world0
               and snapshot = "[]" and snapshot' = "''requests_total 42''"
               and e = "Rejection ''ECONNREFUSED''"]
    by (simp add: e q pusher_w_def world0_def logged_def call_for_def prod_eq_iff)
qed

section \<open>metrics-pusher: start and stop\<close>

text \<open>
  \<open>pusher.ts\<close>, \<open>start\<close>, \<open>stop\<close> and \<open>isActive\<close>. \<open>setInterval\<close> enters a
  timer, with its period and the function to run, in the runtime's table and returns
  its handle; \<open>clearInterval\<close> removes the timer of a handle.
\<close>

definition setInterval :: "timer_callback \<Rightarrow> int \<Rightarrow> pusher_world \<Rightarrow> nat \<times> pusher_world" where
  "setInterval callback ms w =
     (next_timer w,
      w\<lparr>timers := timers w @ [(next_timer w, ms, callback)], next_timer := next_timer w + 1\<rparr>)"

definition clearInterval :: "nat \<Rightarrow> pusher_world \<Rightarrow> pusher_world" where
  "clearInterval h w = w\<lparr>timers := filter (\<lambda>t. fst t \<noteq> h) (timers w)\<rparr>"

text \<open>
  \<open>start\<close>, from its first statement to its last, as it runs when nothing else runs
  while it awaits its push.
\<close>

definition start ::
  "MetricsPusher \<Rightarrow> registry \<Rightarrow> remote \<Rightarrow> pusher_world
     \<Rightarrow> (thrown + unit) \<times> MetricsPusher \<times> pusher_world" where
  "start this reg forward w =
     (if MetricsPusher.isRunning this then
        (Inr (), this, logged (LWarn, ''Metrics pusher already running'') w)
      else if MetricsPusher.alloyUrl this = [] then
        (Inr (), this, logged (LWarn, ''Alloy URL not configured - metrics push disabled'') w)
      else
        (let w1 = logged (LInfo, ''Starting metrics pusher'') w;
             this1 = this\<lparr>MetricsPusher.isRunning := True\<rparr>
         in case pushMetrics this1 reg forward w1 of
              (Inl error, w2) \<Rightarrow> (Inl error, this1, w2)
            | (Inr _, w2) \<Rightarrow>
                (let (h, w3) = setInterval PeriodicPush (pushIntervalMs this1) w2;
                     this2 = this1\<lparr>intervalId := Some h\<rparr>
                 in (Inr (), this2, logged (LInfo, ''Metrics pusher started successfully'') w3))))"

text \<open>
  The function given to \<open>setInterval\<close>: a push, with a \<open>catch\<close> that logs. It reads
  the pusher's fields when it runs.
\<close>

definition on_interval :: "MetricsPusher \<Rightarrow> registry \<Rightarrow> remote \<Rightarrow> pusher_world \<Rightarrow> pusher_world" where
  "on_interval this reg forward w =
     (case pushMetrics this reg forward w of
        (Inl error, w1) \<Rightarrow> logged (LError, ''Error pushing metrics'') w1
      | (Inr _, w1) \<Rightarrow> w1)"

fun run_callback ::
  "timer_callback \<Rightarrow> MetricsPusher \<Rightarrow> registry \<Rightarrow> remote \<Rightarrow> pusher_world \<Rightarrow> pusher_world" where
  "run_callback PeriodicPush this reg forward w = on_interval this reg forward w"

text \<open>
  The runtime fires the timer of a handle: the timer's function runs when the timer is
  in the table, and nothing happens when it has been cleared.
\<close>

definition fire :: "nat \<Rightarrow> MetricsPusher \<Rightarrow> registry \<Rightarrow> remote \<Rightarrow> pusher_world \<Rightarrow> pusher_world" where
  "fire h this reg forward w =
     (case find (\<lambda>t. fst t = h) (timers w) of
        None \<Rightarrow> w
      | Some (_, _, callback) \<Rightarrow> run_callback callback this reg forward w)"

definition stop :: "MetricsPusher \<Rightarrow> pusher_world \<Rightarrow> MetricsPusher \<times> pusher_world" where
  "stop this w =
     (if \<not> MetricsPusher.isRunning this then (this, w)
      else
        (let (this1, w1) =
               (case intervalId this of
                  Some h \<Rightarrow> (this\<lparr>intervalId := None\<rparr>, clearInterval h w)
                | None \<Rightarrow> (this, w));
             this2 = this1\<lparr>MetricsPusher.isRunning := False\<rparr>
         in (this2, logged (LInfo, ''Metrics pusher stopped'') w1)))"

definition isActive :: "MetricsPusher \<Rightarrow> bool" where
  "isActive this = MetricsPusher.isRunning this"

subsection \<open>Calls that interleave\<close>

text \<open>
  \<open>start\<close> is an \<open>async\<close> method that is suspended once, at
  \<open>await this.pushMetrics()\<close>: its statements before that point (\<open>start_begin\<close>, which
  tells whether it goes on) and after it (\<open>start_resume\<close>) are two steps on the same
  object. \<open>stop\<close> and \<open>isActive\<close> are synchronous, and so is the function of the
  timer up to its own push; any of them can run between the two steps. The awaited push
  is taken whole, at the moment \<open>start\<close> goes on.
\<close>

definition start_begin :: "MetricsPusher \<Rightarrow> pusher_world \<Rightarrow> bool \<times> MetricsPusher \<times> pusher_world" where
  "start_begin this w =
     (if MetricsPusher.isRunning this then
        (False, this, logged (LWarn, ''Metrics pusher already running'') w)
      else if MetricsPusher.alloyUrl this = [] then
        (False, this, logged (LWarn, ''Alloy URL not configured - metrics push disabled'') w)
      else
        (True, this\<lparr>MetricsPusher.isRunning := True\<rparr>,
         logged (LInfo, ''Starting metrics pusher'') w))"

definition start_resume :: "MetricsPusher \<Rightarrow> pusher_world \<Rightarrow> MetricsPusher \<times> pusher_world" where
  "start_resume this w =
     (let (h, w1) = setInterval PeriodicPush (pushIntervalMs this) w
      in (this\<lparr>intervalId := Some h\<rparr>,
          logged (LInfo, ''Metrics pusher started successfully'') w1))"

text \<open>
  What happens to one pusher, one event at a time: a call of \<open>start\<close> (up to its
  \<open>await\<close>), a suspended \<open>start\<close> going on (with what its push meets), a call of
  \<open>stop\<close>, and the runtime firing a timer (with what that push meets). The state keeps
  the object, the world and how many calls of \<open>start\<close> are suspended; an event that
  says a \<open>start\<close> goes on when none is suspended changes nothing.
\<close>

datatype pusher_event =
    CallStart
  | ResumeStart registry remote
  | CallStop
  | Tick nat registry remote

record pusher_state =
  the_pusher :: MetricsPusher
  the_world :: pusher_world
  suspended :: nat

fun step :: "pusher_event \<Rightarrow> pusher_state \<Rightarrow> pusher_state" where
  "step CallStart s =
     (case start_begin (the_pusher s) (the_world s) of
        (go, p, w) \<Rightarrow>
          \<lparr> the_pusher = p, the_world = w,
            suspended = (if go then suspended s + 1 else suspended s) \<rparr>)"
| "step (ResumeStart reg forward) s =
     (if suspended s = 0 then s
      else
        (case pushMetrics (the_pusher s) reg forward (the_world s) of
           (Inl error, w) \<Rightarrow>
             \<lparr> the_pusher = the_pusher s, the_world = w, suspended = suspended s - 1 \<rparr>
         | (Inr _, w) \<Rightarrow>
             (case start_resume (the_pusher s) w of
                (p, w1) \<Rightarrow> \<lparr> the_pusher = p, the_world = w1, suspended = suspended s - 1 \<rparr>)))"
| "step CallStop s =
     (case stop (the_pusher s) (the_world s) of
        (p, w) \<Rightarrow> \<lparr> the_pusher = p, the_world = w, suspended = suspended s \<rparr>)"
| "step (Tick h reg forward) s =
     \<lparr> the_pusher = the_pusher s,
       the_world = fire h (the_pusher s) reg forward (the_world s),
       suspended = suspended s \<rparr>"

fun run_events :: "pusher_event list \<Rightarrow> pusher_state \<Rightarrow> pusher_state" where
  "run_events [] s = s"
| "run_events (e # es) s = run_events es (step e s)"

definition at_rest :: "MetricsPusher \<Rightarrow> pusher_world \<Rightarrow> pusher_state" where
  "at_rest p w = \<lparr> the_pusher = p, the_world = w, suspended = 0 \<rparr>"

text \<open>
  A history of calls each awaited before the next, as the package's tests and
  documentation make them: every \<open>start\<close> goes on at once.
\<close>

datatype pusher_op = Start registry remote | Stop

fun awaited :: "pusher_op \<Rightarrow> pusher_event list" where
  "awaited (Start reg forward) = [CallStart, ResumeStart reg forward]"
| "awaited Stop = [CallStop]"

text \<open>Whether a history, run from a state, has a \<open>stop\<close> while a \<open>start\<close> is suspended.\<close>

fun stop_inside_start :: "pusher_event list \<Rightarrow> pusher_state \<Rightarrow> bool" where
  "stop_inside_start [] s = False"
| "stop_inside_start (e # es) s =
     ((case e of CallStop \<Rightarrow> suspended s > 0 | _ \<Rightarrow> False) \<or> stop_inside_start es (step e s))"

text \<open>
  The states of the machine, on the pusher and the runtime's timers together. Idle: not
  running, no handle, no timer. Running: running, with the handle of the one timer there
  is, whose period is the pusher's interval and whose function is the periodic push.
  Starting, while \<open>start\<close> awaits its first push: marked running, no timer yet.
\<close>

definition idle :: "MetricsPusher \<Rightarrow> pusher_world \<Rightarrow> bool" where
  "idle this w = (\<not> MetricsPusher.isRunning this \<and> intervalId this = None \<and> timers w = [])"

definition running :: "MetricsPusher \<Rightarrow> pusher_world \<Rightarrow> bool" where
  "running this w =
     (MetricsPusher.isRunning this
      \<and> (case intervalId this of
            None \<Rightarrow> False
          | Some h \<Rightarrow> timers w = [(h, pushIntervalMs this, PeriodicPush)] \<and> h < next_timer w))"

definition starting :: "MetricsPusher \<Rightarrow> pusher_world \<Rightarrow> bool" where
  "starting this w = (MetricsPusher.isRunning this \<and> intervalId this = None \<and> timers w = [])"

definition in_phase :: "pusher_state \<Rightarrow> bool" where
  "in_phase s =
     (if suspended s = 0
      then idle (the_pusher s) (the_world s) \<or> running (the_pusher s) (the_world s)
      else suspended s = 1 \<and> starting (the_pusher s) (the_world s))"

lemma start_in_two_steps:
  "start p reg forward w =
     (case start_begin p w of
        (False, p1, w1) \<Rightarrow> (Inr (), p1, w1)
      | (True, p1, w1) \<Rightarrow>
          (case pushMetrics p1 reg forward w1 of
             (Inl error, w2) \<Rightarrow> (Inl error, p1, w2)
           | (Inr _, w2) \<Rightarrow> (Inr (), start_resume p1 w2)))"
  by (simp add: start_def start_begin_def start_resume_def Let_def
           split: prod.splits sum.splits)

lemma awaited_start_is_start:
  "run_events (awaited (Start reg forward)) (at_rest p w)
     = at_rest (fst (snd (start p reg forward w))) (snd (snd (start p reg forward w)))"
  using pushMetrics_resolves [of "p\<lparr>MetricsPusher.isRunning := True\<rparr>" reg forward
          "logged (LInfo, ''Starting metrics pusher'') w"]
  by (simp add: start_in_two_steps start_begin_def at_rest_def
           split: prod.splits sum.splits)

lemma awaited_stop_is_stop:
  "run_events (awaited Stop) (at_rest p w) = at_rest (fst (stop p w)) (snd (stop p w))"
  by (simp add: at_rest_def split: prod.splits)

lemma start_when_running:
  "MetricsPusher.isRunning p \<Longrightarrow>
   start p reg forward w = (Inr (), p, logged (LWarn, ''Metrics pusher already running'') w)"
  by (simp add: start_def)

lemma start_without_url:
  "\<not> MetricsPusher.isRunning p \<Longrightarrow> MetricsPusher.alloyUrl p = [] \<Longrightarrow>
   start p reg forward w
     = (Inr (), p, logged (LWarn, ''Alloy URL not configured - metrics push disabled'') w)"
  by (simp add: start_def)

lemma start_from_idle:
  assumes "\<not> MetricsPusher.isRunning p" and "MetricsPusher.alloyUrl p \<noteq> []"
  shows "start p reg forward w =
           (Inr (),
            p\<lparr>MetricsPusher.isRunning := True, intervalId := Some (next_timer w)\<rparr>,
            logged (LInfo, ''Metrics pusher started successfully'')
              (snd (setInterval PeriodicPush (pushIntervalMs p)
                 (snd (pushMetrics (p\<lparr>MetricsPusher.isRunning := True\<rparr>) reg forward
                         (logged (LInfo, ''Starting metrics pusher'') w))))))"
proof -
  let ?p1 = "p\<lparr>MetricsPusher.isRunning := True\<rparr>"
  let ?w1 = "logged (LInfo, ''Starting metrics pusher'') w"
  obtain r w2 where pm: "pushMetrics ?p1 reg forward ?w1 = (r, w2)"
    by (cases "pushMetrics ?p1 reg forward ?w1")
  have r: "r = Inr ()"
    using pushMetrics_resolves [of ?p1 reg forward ?w1] pm by simp
  have "next_timer w2 = next_timer ?w1"
    using pushMetrics_keeps_timers [of ?p1 reg forward ?w1] pm by simp
  then have nt: "next_timer w2 = next_timer w"
    by (simp add: logged_def)
  show ?thesis
    using assms by (simp add: start_def Let_def pm r setInterval_def nt)
qed

lemma stop_when_idle: "\<not> MetricsPusher.isRunning p \<Longrightarrow> stop p w = (p, w)"
  by (simp add: stop_def)

lemma stop_when_running:
  assumes "MetricsPusher.isRunning p" and "intervalId p = Some h"
  shows "stop p w = (p\<lparr>intervalId := None, MetricsPusher.isRunning := False\<rparr>,
                     logged (LInfo, ''Metrics pusher stopped'') (clearInterval h w))"
  using assms by (simp add: stop_def)

lemma stop_not_running: "\<not> MetricsPusher.isRunning (fst (stop p w))"
  by (simp add: stop_def Let_def split: option.splits)

lemma stop_idempotent: "stop (fst (stop p w)) (snd (stop p w)) = stop p w"
  using stop_not_running [of p w] by (simp add: stop_when_idle)

lemma idle_or_running_exclusive: "\<not> (idle p w \<and> running p w)"
  by (simp add: idle_def running_def)

text \<open>The three states read the world's timers only.\<close>

lemma same_timers:
  assumes "timers w' = timers w" and "next_timer w' = next_timer w"
  shows "idle p w' = idle p w" and "running p w' = running p w" and "starting p w' = starting p w"
  using assms by (simp_all add: idle_def running_def starting_def split: option.splits)

lemma logged_keeps_timers:
  "timers (logged e w) = timers w" "next_timer (logged e w) = next_timer w"
  by (simp_all add: logged_def)

lemma on_interval_keeps_timers:
  "timers (on_interval p reg forward w) = timers w"
  "next_timer (on_interval p reg forward w) = next_timer w"
  using pushMetrics_keeps_timers [of p reg forward w]
  by (auto simp: on_interval_def logged_def split: prod.splits sum.splits)

lemma run_callback_keeps_timers:
  "timers (run_callback callback p reg forward w) = timers w"
  "next_timer (run_callback callback p reg forward w) = next_timer w"
  by (cases callback; simp add: on_interval_keeps_timers)+

lemma fire_keeps_timers:
  "timers (fire h p reg forward w) = timers w"
  "next_timer (fire h p reg forward w) = next_timer w"
  by (auto simp: fire_def run_callback_keeps_timers split: option.splits)

text \<open>A tick is a push: the timer's function ends as \<open>pushMetrics\<close> does.\<close>

lemma on_interval_is_push:
  "on_interval p reg forward w = snd (pushMetrics p reg forward w)"
  using pushMetrics_resolves [of p reg forward w]
  by (auto simp: on_interval_def split: prod.splits sum.splits)

lemma fire_when_running:
  assumes "running p w" and "intervalId p = Some h"
  shows "fire h p reg forward w = snd (pushMetrics p reg forward w)"
  using assms by (simp add: running_def fire_def on_interval_is_push)

lemma fire_when_idle: "idle p w \<Longrightarrow> fire h p reg forward w = w"
  by (simp add: idle_def fire_def)


lemma pushMetrics_result:
  assumes "pushMetrics p reg forward w = (r, w2)"
  shows "r = Inr ()" and "timers w2 = timers w" and "next_timer w2 = next_timer w"
  using assms pushMetrics_resolves [of p reg forward w] pushMetrics_keeps_timers [of p reg forward w]
  by simp_all

lemma call_start_keeps_phase:
  assumes "in_phase s"
  shows "in_phase (step CallStart s)"
  using assms
  by (auto simp: in_phase_def idle_def running_def starting_def start_begin_def logged_def
           split: option.splits if_splits)

lemma resume_start_keeps_phase:
  assumes "in_phase s"
  shows "in_phase (step (ResumeStart reg forward) s)"
proof (cases "suspended s = 0")
  case True
  then show ?thesis using assms by simp
next
  case False
  then have st: "suspended s = 1" "starting (the_pusher s) (the_world s)"
    using assms by (simp_all add: in_phase_def)
  obtain r w2 where pm: "pushMetrics (the_pusher s) reg forward (the_world s) = (r, w2)"
    by (cases "pushMetrics (the_pusher s) reg forward (the_world s)")
  note res = pushMetrics_result [OF pm]
  show ?thesis
    using st res
    by (simp add: pm in_phase_def starting_def running_def start_resume_def setInterval_def
          logged_def)
qed

lemma call_stop_keeps_phase:
  assumes "in_phase s" and "suspended s = 0"
  shows "in_phase (step CallStop s)"
  using assms
  by (auto simp: in_phase_def idle_def running_def stop_def clearInterval_def logged_def
           split: option.splits)

lemma tick_keeps_phase:
  assumes "in_phase s"
  shows "in_phase (step (Tick h reg forward) s)"
  using assms
        same_timers [where w' = "fire h (the_pusher s) reg forward (the_world s)"
                       and w = "the_world s" and p = "the_pusher s"]
  by (auto simp: in_phase_def fire_keeps_timers split: if_splits)

lemma run_events_keeps_phase:
  "in_phase s \<Longrightarrow> \<not> stop_inside_start es s \<Longrightarrow> in_phase (run_events es s)"
proof (induction es arbitrary: s)
  case Nil
  then show ?case by simp
next
  case (Cons e es)
  have "in_phase (step e s)"
  proof (cases e)
    case CallStart
    then show ?thesis using Cons.prems(1) call_start_keeps_phase by simp
  next
    case (ResumeStart reg forward)
    then show ?thesis using Cons.prems(1) resume_start_keeps_phase by simp
  next
    case CallStop
    then show ?thesis using Cons.prems call_stop_keeps_phase by simp
  next
    case (Tick h reg forward)
    then show ?thesis using Cons.prems(1) tick_keeps_phase by simp
  qed
  moreover have "\<not> stop_inside_start es (step e s)"
    using Cons.prems(2) by simp
  ultimately show ?case
    using Cons.IH [of "step e s"] by simp
qed

text \<open>Calls that are each awaited never put a \<open>stop\<close> inside a \<open>start\<close>.\<close>

lemma awaited_op_at_rest:
  assumes "in_phase s" and "suspended s = 0"
  shows "\<not> stop_inside_start (awaited x) s"
    and "suspended (run_events (awaited x) s) = 0"
    and "in_phase (run_events (awaited x) s)"
proof -
  show a: "\<not> stop_inside_start (awaited x) s"
    using assms(2) by (cases x) simp_all
  show "in_phase (run_events (awaited x) s)"
    using run_events_keeps_phase [OF assms(1) a] .
  show "suspended (run_events (awaited x) s) = 0"
  proof (cases x)
    case (Start reg forward)
    then show ?thesis
      using assms(2)
      by (simp add: start_begin_def start_resume_def Let_def
               split: prod.splits sum.splits if_splits)
  next
    case Stop
    then show ?thesis using assms(2) by (simp split: prod.splits)
  qed
qed

lemma stop_inside_start_append:
  "stop_inside_start (es @ fs) s
     = (stop_inside_start es s \<or> stop_inside_start fs (run_events es s))"
  by (induction es arbitrary: s) simp_all

lemma run_events_append: "run_events (es @ fs) s = run_events fs (run_events es s)"
  by (induction es arbitrary: s) simp_all

lemma awaited_history_at_rest:
  assumes "in_phase s" and "suspended s = 0"
  shows "\<not> stop_inside_start (concat (map awaited ops)) s
       \<and> suspended (run_events (concat (map awaited ops)) s) = 0"
  using assms
proof (induction ops arbitrary: s)
  case Nil
  then show ?case by simp
next
  case (Cons x ops)
  note one = awaited_op_at_rest [OF Cons.prems, of x]
  show ?case
    using one Cons.IH [OF one(3) one(2)]
    by (simp add: stop_inside_start_append run_events_append)
qed

lemma new_pusher_idle:
  "MetricsPusher_new cfg penv = Inr p \<Longrightarrow> timers w = [] \<Longrightarrow> idle p w"
  by (auto simp: MetricsPusher_new_def idle_def split: if_splits)

lemma isActive_iff:
  assumes "idle p w \<or> running p w"
  shows "isActive p \<longleftrightarrow> running p w"
  using assms by (auto simp: isActive_def idle_def running_def)


lemma start_makes_running:
  assumes "idle p w" and "MetricsPusher.alloyUrl p \<noteq> []"
  shows "running (fst (snd (start p reg forward w))) (snd (snd (start p reg forward w)))"
proof -
  let ?p1 = "p\<lparr>MetricsPusher.isRunning := True\<rparr>"
  let ?w1 = "logged (LInfo, ''Starting metrics pusher'') w"
  have i: "\<not> MetricsPusher.isRunning p" "timers w = []"
    using assms(1) by (simp_all add: idle_def)
  have "timers (snd (pushMetrics ?p1 reg forward ?w1)) = timers ?w1"
       "next_timer (snd (pushMetrics ?p1 reg forward ?w1)) = next_timer ?w1"
    using pushMetrics_keeps_timers [of ?p1 reg forward ?w1] by simp_all
  then show ?thesis
    using i assms(2)
    by (simp add: start_from_idle running_def setInterval_def logged_def)
qed

lemma stop_makes_idle:
  assumes "running p w"
  shows "idle (fst (stop p w)) (snd (stop p w))"
proof -
  obtain h where h: "MetricsPusher.isRunning p" "intervalId p = Some h"
      "timers w = [(h, pushIntervalMs p, PeriodicPush)]"
    using assms by (auto simp: running_def split: option.splits)
  then show ?thesis
    by (simp add: stop_when_running idle_def clearInterval_def logged_def)
qed

text \<open>
  The state machine of the claim, for every history of calls and ticks in which no
  \<open>stop\<close> runs while a \<open>start\<close> is suspended: whenever no \<open>start\<close> is suspended the
  pusher is idle or running, and \<open>isActive\<close> is true exactly when it is running.
  Histories of awaited calls are such histories.
\<close>

lemma state_machine_without_stop_inside_start:
  assumes "MetricsPusher_new cfg penv = Inr p0" and "timers w0 = []"
    and "\<not> stop_inside_start es (at_rest p0 w0)"
    and "run_events es (at_rest p0 w0) = s" and "suspended s = 0"
  shows "idle (the_pusher s) (the_world s) \<or> running (the_pusher s) (the_world s)"
    and "isActive (the_pusher s) = running (the_pusher s) (the_world s)"
    and "(\<not> isActive (the_pusher s)) = idle (the_pusher s) (the_world s)"
proof -
  have "idle p0 w0"
    using assms(1,2) by (rule new_pusher_idle)
  then have "in_phase (at_rest p0 w0)"
    by (simp add: in_phase_def at_rest_def)
  then have "in_phase s"
    using run_events_keeps_phase assms(3,4) by blast
  then show s: "idle (the_pusher s) (the_world s) \<or> running (the_pusher s) (the_world s)"
    using assms(5) by (simp add: in_phase_def)
  show "isActive (the_pusher s) = running (the_pusher s) (the_world s)"
    using s by (rule isActive_iff)
  show "(\<not> isActive (the_pusher s)) = idle (the_pusher s) (the_world s)"
    using s isActive_iff [OF s] idle_or_running_exclusive [of "the_pusher s" "the_world s"]
    by blast
qed

lemma awaited_calls_follow_state_machine:
  assumes "MetricsPusher_new cfg penv = Inr p0" and "timers w0 = []"
    and "run_events (concat (map awaited ops)) (at_rest p0 w0) = s"
  shows "suspended s = 0"
    and "idle (the_pusher s) (the_world s) \<or> running (the_pusher s) (the_world s)"
    and "isActive (the_pusher s) = running (the_pusher s) (the_world s)"
proof -
  have "idle p0 w0"
    using assms(1,2) by (rule new_pusher_idle)
  then have "in_phase (at_rest p0 w0)" "suspended (at_rest p0 w0) = 0"
    by (simp_all add: in_phase_def at_rest_def)
  note h = awaited_history_at_rest [OF this, of ops]
  show z: "suspended s = 0"
    using h assms(3) by simp
  show "idle (the_pusher s) (the_world s) \<or> running (the_pusher s) (the_world s)"
    using state_machine_without_stop_inside_start(1) [OF assms(1,2) _ assms(3) z] h by simp
  show "isActive (the_pusher s) = running (the_pusher s) (the_world s)"
    using state_machine_without_stop_inside_start(2) [OF assms(1,2) _ assms(3) z] h by simp
qed

text \<open>
  The transitions of the claim, between calls that are awaited: the default interval,
  \<open>start\<close> on a running pusher, on an idle one without and with a URL (one push, then
  the one timer with the pusher's interval and the periodic push as its function),
  \<open>stop\<close> on a running and on an idle pusher, and a second \<open>stop\<close>. A tick of the
  timer of a running pusher is one more push; after \<open>stop\<close> a tick does nothing.
\<close>

lemma awaited_transitions:
  "MetricsPusher_new cfg penv = Inr p0
     \<Longrightarrow> pushIntervalMs p0
         = (case MetricsConfig.pushInterval cfg of None \<Rightarrow> 15000 | Some n \<Rightarrow> n * 1000)"
  "running p w
     \<Longrightarrow> start p reg forward w = (Inr (), p, logged (LWarn, ''Metrics pusher already running'') w)"
  "idle p w \<Longrightarrow> MetricsPusher.alloyUrl p = []
     \<Longrightarrow> start p reg forward w
         = (Inr (), p, logged (LWarn, ''Alloy URL not configured - metrics push disabled'') w)"
  "idle p w \<Longrightarrow> MetricsPusher.alloyUrl p \<noteq> []
     \<Longrightarrow> start p reg forward w
         = (Inr (),
            p\<lparr>MetricsPusher.isRunning := True, intervalId := Some (next_timer w)\<rparr>,
            logged (LInfo, ''Metrics pusher started successfully'')
              (snd (setInterval PeriodicPush (pushIntervalMs p)
                 (snd (pushMetrics (p\<lparr>MetricsPusher.isRunning := True\<rparr>) reg forward
                         (logged (LInfo, ''Starting metrics pusher'') w))))))"
  "idle p w \<Longrightarrow> MetricsPusher.alloyUrl p \<noteq> []
     \<Longrightarrow> running (fst (snd (start p reg forward w))) (snd (snd (start p reg forward w)))"
  "running p w \<Longrightarrow> intervalId p = Some h
     \<Longrightarrow> fire h p reg' forward' w = snd (pushMetrics p reg' forward' w)"
  "running p w \<Longrightarrow> idle (fst (stop p w)) (snd (stop p w))"
  "idle p w \<Longrightarrow> stop p w = (p, w)"
  "idle p w \<Longrightarrow> fire h p reg' forward' w = w"
  "stop (fst (stop p w)) (snd (stop p w)) = stop p w"
proof -
  show "MetricsPusher_new cfg penv = Inr p0
     \<Longrightarrow> pushIntervalMs p0
         = (case MetricsConfig.pushInterval cfg of None \<Rightarrow> 15000 | Some n \<Rightarrow> n * 1000)"
    by (rule pusher_resolved(3))
  show "running p w
     \<Longrightarrow> start p reg forward w = (Inr (), p, logged (LWarn, ''Metrics pusher already running'') w)"
    by (simp add: running_def start_when_running)
  show "idle p w \<Longrightarrow> MetricsPusher.alloyUrl p = []
     \<Longrightarrow> start p reg forward w
         = (Inr (), p, logged (LWarn, ''Alloy URL not configured - metrics push disabled'') w)"
    by (simp add: idle_def start_without_url)
  show "idle p w \<Longrightarrow> MetricsPusher.alloyUrl p \<noteq> []
     \<Longrightarrow> start p reg forward w
         = (Inr (),
            p\<lparr>MetricsPusher.isRunning := True, intervalId := Some (next_timer w)\<rparr>,
            logged (LInfo, ''Metrics pusher started successfully'')
              (snd (setInterval PeriodicPush (pushIntervalMs p)
                 (snd (pushMetrics (p\<lparr>MetricsPusher.isRunning := True\<rparr>) reg forward
                         (logged (LInfo, ''Starting metrics pusher'') w))))))"
    by (simp add: idle_def start_from_idle)
  show "idle p w \<Longrightarrow> MetricsPusher.alloyUrl p \<noteq> []
     \<Longrightarrow> running (fst (snd (start p reg forward w))) (snd (snd (start p reg forward w)))"
    by (rule start_makes_running)
  show "running p w \<Longrightarrow> intervalId p = Some h
     \<Longrightarrow> fire h p reg' forward' w = snd (pushMetrics p reg' forward' w)"
    by (rule fire_when_running)
  show "running p w \<Longrightarrow> idle (fst (stop p w)) (snd (stop p w))"
    by (rule stop_makes_idle)
  show "idle p w \<Longrightarrow> stop p w = (p, w)"
    by (simp add: idle_def stop_when_idle)
  show "idle p w \<Longrightarrow> fire h p reg' forward' w = w"
    by (rule fire_when_idle)
  show "stop (fst (stop p w)) (snd (stop p w)) = stop p w"
    by (rule stop_idempotent)
qed

text \<open>
  A \<open>stop\<close> inside a \<open>start\<close>, for any idle pusher with a URL: \<open>stop\<close> finds no timer
  to clear and marks the pusher as not running; \<open>start\<close> then goes on and sets the timer
  all the same, without reading the mark again. The pusher ends not active with a timer
  that runs, and a later \<open>stop\<close> returns at once and leaves the timer in place.
\<close>

lemma stop_during_start_leaves_timer:
  assumes "idle p w" and "MetricsPusher.alloyUrl p \<noteq> []"
    and "start_begin p w = (go, p1, w1)" and "stop p1 w1 = (p2, w2)"
    and "pushMetrics p2 reg forward w2 = (r, w3)" and "start_resume p2 w3 = (p4, w4)"
  shows "go \<and> \<not> isActive p4 \<and> timers w4 = [(next_timer w, pushIntervalMs p, PeriodicPush)]
       \<and> stop p4 w4 = (p4, w4)"
proof -
  have i: "\<not> MetricsPusher.isRunning p" "intervalId p = None" "timers w = []"
    using assms(1) by (simp_all add: idle_def)
  have b: "go" "p1 = p\<lparr>MetricsPusher.isRunning := True\<rparr>"
      "w1 = logged (LInfo, ''Starting metrics pusher'') w"
    using assms(2,3) i by (simp_all add: start_begin_def)
  have s: "p2 = p\<lparr>MetricsPusher.isRunning := False\<rparr>"
      "w2 = logged (LInfo, ''Metrics pusher stopped'') w1"
    using assms(4) i by (simp_all add: stop_def b)
  have t: "timers w3 = [] \<and> next_timer w3 = next_timer w"
    using pushMetrics_result(2,3) [OF assms(5)] i
    by (simp add: s b logged_def)
  have e: "p4 = p2\<lparr>intervalId := Some (next_timer w)\<rparr>"
      "timers w4 = [(next_timer w, pushIntervalMs p, PeriodicPush)]"
    using assms(6) t by (auto simp: start_resume_def setInterval_def logged_def s)
  show ?thesis
    using b(1) e by (simp add: isActive_def s stop_def)
qed

definition cfg_s :: MetricsConfig where
  "cfg_s = metrics_empty \<lparr> MetricsConfig.serviceName := Some ''svc'',
      MetricsConfig.alloyUrl := Some ''http://alloy:9091/api/v1/metrics/write'',
      MetricsConfig.environment := Some ''test'' \<rparr>"

definition stop_before_resume :: "pusher_event list" where
  "stop_before_resume = [CallStart, CallStop, ResumeStart (Inr ''requests_total 42'') (\<lambda>_. None)]"

definition the_push :: push_call where
  "the_push = PushCall [(''requests_total'', Number 42)]
                ''http://alloy:9091/api/v1/metrics/write''
                [(''service'', ''svc''), (''environment'', ''test'')]"

definition leaked_pusher :: MetricsPusher where
  "leaked_pusher = pusher_w\<lparr>intervalId := Some 1\<rparr>"

definition leaked_world :: pusher_world where
  "leaked_world =
     \<lparr> pusher_world.log = [(LInfo, ''Starting metrics pusher''),
                            (LInfo, ''Metrics pusher stopped''),
                            (LDebug, ''Pushed metrics successfully''),
                            (LInfo, ''Metrics pusher started successfully'')],
       pushed = [the_push],
       timers = [(1, 15000, PeriodicPush)], next_timer = 2 \<rparr>"

lemma race_q: "parsePrometheusMetrics ''requests_total 42'' = [(''requests_total'', Number 42)]"
  by (simp add: parse_eval)

lemma race_new: "MetricsPusher_new cfg_s (env_of []) = Inr pusher_w"
  by (simp add: MetricsPusher_new_def cfg_s_def metrics_empty_def pusher_w_def env_of_def
        truthy_str_def or_lit_def or_str_def nullish_def)

lemma race_run:
  "run_events stop_before_resume (at_rest pusher_w world0) = at_rest leaked_pusher leaked_world"
  by (simp add: stop_before_resume_def at_rest_def start_begin_def stop_def pushMetrics_def
        pushMetrics_try_def race_q Object_keys_def Let_def start_resume_def setInterval_def
        logged_def pusher_w_def world0_def leaked_pusher_def leaked_world_def the_push_def)

lemma race_flag: "stop_inside_start stop_before_resume (at_rest pusher_w world0)"
  by (simp add: stop_before_resume_def at_rest_def start_begin_def pusher_w_def)

lemma race_stop_again:
  "step CallStop (at_rest leaked_pusher leaked_world) = at_rest leaked_pusher leaked_world"
  by (simp add: at_rest_def stop_def leaked_pusher_def pusher_w_def)

lemma race_tick:
  "step (Tick 1 (Inr ''requests_total 42'') (\<lambda>_. None)) (at_rest leaked_pusher leaked_world)
     = at_rest leaked_pusher
         (leaked_world\<lparr>pushed := [the_push, the_push],
                       pusher_world.log := pusher_world.log leaked_world
                         @ [(LDebug, ''Pushed metrics successfully'')]\<rparr>)"
  by (simp add: at_rest_def fire_def on_interval_def pushMetrics_def pushMetrics_try_def race_q
        Object_keys_def Let_def logged_def leaked_pusher_def pusher_w_def leaked_world_def
        the_push_def)


definition stopped_world :: pusher_world where
  "stopped_world =
     \<lparr> pusher_world.log = [(LInfo, ''Starting metrics pusher''),
                            (LDebug, ''Pushed metrics successfully''),
                            (LInfo, ''Metrics pusher started successfully''),
                            (LInfo, ''Metrics pusher stopped'')],
       pushed = [the_push], timers = [], next_timer = 2 \<rparr>"

lemma awaited_run:
  "run_events (awaited (Start (Inr ''requests_total 42'') (\<lambda>_. None)) @ awaited Stop)
       (at_rest pusher_w world0)
     = at_rest pusher_w stopped_world"
  by (simp add: at_rest_def start_begin_def stop_def pushMetrics_def
        pushMetrics_try_def race_q Object_keys_def Let_def start_resume_def setInterval_def
        clearInterval_def logged_def pusher_w_def world0_def stopped_world_def the_push_def)

text \<open>
  C3. The state machine of the claim is what the code does as long as no \<open>stop\<close> runs
  while a \<open>start\<close> awaits its first push (the lemmas above). At a \<open>stop\<close> inside a
  \<open>start\<close> the code leaves the machine. The pusher of the package's test is built with
  a URL and is idle; \<open>start\<close> is called and not awaited, \<open>stop\<close> is called, and
  \<open>start\<close> goes on with one sample in the registry. At the end \<open>isActive\<close> is false
  and the pusher is neither idle nor running: the timer of 15000 ms set after the
  \<open>stop\<close> is in the runtime's table. A further \<open>stop\<close> changes nothing, and a tick of
  that timer forwards the samples once more. The same two calls, each awaited, end idle
  with no timer.
\<close>

theorem stop_inside_start_leaves_pusher_pushing:
  "MetricsPusher_new cfg_s (env_of []) = Inr pusher_w
   \<and> idle pusher_w world0
   \<and> stop_inside_start stop_before_resume (at_rest pusher_w world0)
   \<and> run_events stop_before_resume (at_rest pusher_w world0) = at_rest leaked_pusher leaked_world
   \<and> isActive leaked_pusher = False
   \<and> timers leaked_world = [(1, 15000, PeriodicPush)]
   \<and> idle leaked_pusher leaked_world = False
   \<and> running leaked_pusher leaked_world = False
   \<and> step CallStop (at_rest leaked_pusher leaked_world) = at_rest leaked_pusher leaked_world
   \<and> step (Tick 1 (Inr ''requests_total 42'') (\<lambda>_. None)) (at_rest leaked_pusher leaked_world)
       = at_rest leaked_pusher
           (leaked_world\<lparr>pushed := [the_push, the_push],
                         pusher_world.log := pusher_world.log leaked_world
                           @ [(LDebug, ''Pushed metrics successfully'')]\<rparr>)
   \<and> run_events (awaited (Start (Inr ''requests_total 42'') (\<lambda>_. None)) @ awaited Stop)
         (at_rest pusher_w world0)
       = at_rest pusher_w stopped_world
   \<and> idle pusher_w stopped_world"
proof -
  have i: "idle pusher_w world0"
    by (simp add: idle_def pusher_w_def world0_def)
  have a: "isActive leaked_pusher = False"
    by (simp add: isActive_def leaked_pusher_def pusher_w_def)
  have t: "timers leaked_world = [(1, 15000, PeriodicPush)]"
    by (simp add: leaked_world_def)
  have ni: "idle leaked_pusher leaked_world = False"
    by (simp add: idle_def leaked_pusher_def)
  have nr: "running leaked_pusher leaked_world = False"
    by (simp add: running_def leaked_pusher_def pusher_w_def)
  have si: "idle pusher_w stopped_world"
    by (simp add: idle_def pusher_w_def stopped_world_def)
  show ?thesis
    using race_new i race_flag race_run a t ni nr race_stop_again race_tick awaited_run si
    by blast
qed

end
